theory Spec2Isabelle
  imports Complex_Main
begin

section \<open>Values of the configuration document\<close>

text \<open>
  \<open>json.load\<close> yields a tree of Python values: \<open>None\<close>, \<open>bool\<close>, \<open>int\<close>, \<open>float\<close>,
  \<open>str\<close>, \<open>list\<close> and \<open>dict\<close> with string keys. A float is a finite rational, a NaN or
  an infinity (\<open>json.load\<close> accepts \<open>NaN\<close>, \<open>Infinity\<close> and literals such as \<open>1e400\<close>);
  only \<open>int()\<close> is ever applied to it, and truncation of a rational is exact. A dict is
  an association list; a lookup takes the first binding of the key.
\<close>

datatype pyfloat = Finite rat | NaN | Infinity bool

datatype json =
    JNull
  | JBool bool
  | JInt int
  | JFloat pyfloat
  | JStr string
  | JList "json list"
  | JDict "(string \<times> json) list"

text \<open>The exceptions the program can meet; all of them are subclasses of \<open>Exception\<close>.\<close>

datatype exn =
    ValueError string
  | TypeError string
  | KeyError string
  | NameError string
  | OverflowError string
  | FileNotFoundError string
  | JSONDecodeError string
  | SMTPException string
  | OtherError string

fun is_list :: "json \<Rightarrow> bool" where
  "is_list (JList _) = True"
| "is_list _ = False"

fun is_dict :: "json \<Rightarrow> bool" where
  "is_dict (JDict _) = True"
| "is_dict _ = False"

fun is_str :: "json \<Rightarrow> bool" where
  "is_str (JStr _) = True"
| "is_str _ = False"

subsection \<open>Python's operators on these values\<close>

fun starts_with :: "string \<Rightarrow> string \<Rightarrow> bool" where
  "starts_with [] s = True"
| "starts_with (c # cs) [] = False"
| "starts_with (c # cs) (d # ds) = (c = d \<and> starts_with cs ds)"

fun is_substring :: "string \<Rightarrow> string \<Rightarrow> bool" where
  "is_substring sub [] = (sub = [])"
| "is_substring sub (d # ds) = (starts_with sub (d # ds) \<or> is_substring sub ds)"

text \<open>\<open>key in obj\<close> for a string \<open>key\<close>: key membership on a dict, element membership on
  a list, substring test on a string, \<open>TypeError\<close> on everything else.\<close>

fun py_in :: "string \<Rightarrow> json \<Rightarrow> exn + bool" where
  "py_in k (JDict m) = Inr (k \<in> set (map fst m))"
| "py_in k (JList xs) = Inr (JStr k \<in> set xs)"
| "py_in k (JStr s) = Inr (is_substring k s)"
| "py_in k _ = Inl (TypeError ''argument is not iterable'')"

text \<open>\<open>obj[key]\<close> for a string \<open>key\<close>.\<close>

fun py_getitem :: "json \<Rightarrow> string \<Rightarrow> exn + json" where
  "py_getitem (JDict m) k = (case map_of m k of None \<Rightarrow> Inl (KeyError k) | Some v \<Rightarrow> Inr v)"
| "py_getitem (JList _) k = Inl (TypeError ''list indices must be integers or slices, not str'')"
| "py_getitem (JStr _) k = Inl (TypeError ''string indices must be integers, not str'')"
| "py_getitem _ k = Inl (TypeError ''object is not subscriptable'')"

text \<open>Sequencing of a computation that may raise.\<close>

definition bind :: "exn + 'a \<Rightarrow> ('a \<Rightarrow> exn + 'b) \<Rightarrow> exn + 'b" where
  "bind m f = (case m of Inl e \<Rightarrow> Inl e | Inr v \<Rightarrow> f v)"

text \<open>A \<open>for\<close> loop whose body may raise: the first exception leaves the loop.\<close>

fun for_each :: "('a \<Rightarrow> exn + unit) \<Rightarrow> 'a list \<Rightarrow> exn + unit" where
  "for_each body [] = Inr ()"
| "for_each body (x # xs) = bind (body x) (\<lambda>_. for_each body xs)"

subsection \<open>\<open>int()\<close>\<close>

text \<open>
  \<open>int(s)\<close> on a string: surrounding whitespace is stripped, one sign is allowed, then
  decimal digits, with single underscores allowed between digits. A \<open>char\<close> is a code
  point below 256. The whitespace that \<open>int\<close> strips is the space, the characters
  \<open>0x09\<close> to \<open>0x0D\<close>, and the two spaces \<open>0x85\<close> and \<open>0xA0\<close> beyond ASCII, which
  the conversion turns into a space first; \<open>0x1C\<close> to \<open>0x1F\<close> are not stripped. Every
  other character that is not a digit, a sign or an underscore makes the literal invalid.
  A literal of more than 4300 digits is refused (the interpreter's default limit).
  Decimal digits of other scripts lie beyond code point 255 and outside the model.
\<close>

definition is_space :: "char \<Rightarrow> bool" where
  "is_space c = (c \<in> set [CHR '' '', CHR 0x09, CHR 0x0A, CHR 0x0B, CHR 0x0C, CHR 0x0D,
                            CHR 0x85, CHR 0xA0])"

definition strip :: "string \<Rightarrow> string" where
  "strip s = rev (dropWhile is_space (rev (dropWhile is_space s)))"

definition digit_val :: "char \<Rightarrow> nat option" where
  "digit_val c = (let n = (of_char c :: nat) in if 48 \<le> n \<and> n \<le> 57 then Some (n - 48) else None)"

fun digits_val :: "nat \<Rightarrow> string \<Rightarrow> nat option" where
  "digits_val acc [] = Some acc"
| "digits_val acc [c] = (case digit_val c of None \<Rightarrow> None | Some v \<Rightarrow> Some (10 * acc + v))"
| "digits_val acc (c # d # cs) =
     (if c = CHR ''_''
      then (case digit_val d of None \<Rightarrow> None | Some v \<Rightarrow> digits_val (10 * acc + v) cs)
      else (case digit_val c of None \<Rightarrow> None | Some v \<Rightarrow> digits_val (10 * acc + v) (d # cs)))"

definition max_str_digits :: nat where
  "max_str_digits = 4300"

definition nat_literal :: "string \<Rightarrow> nat option" where
  "nat_literal s =
     (if max_str_digits < length (filter (\<lambda>c. digit_val c \<noteq> None) s) then None
      else (case s of [] \<Rightarrow> None
            | c # cs \<Rightarrow> (case digit_val c of None \<Rightarrow> None | Some v \<Rightarrow> digits_val v cs)))"

definition int_of_str :: "string \<Rightarrow> int option" where
  "int_of_str s =
     (case strip s of
        [] \<Rightarrow> None
      | c # cs \<Rightarrow>
          if c = CHR ''-'' then map_option (\<lambda>n. - int n) (nat_literal cs)
          else if c = CHR ''+'' then map_option int (nat_literal cs)
          else map_option int (nat_literal (c # cs)))"

definition trunc :: "rat \<Rightarrow> int" where
  "trunc q = (if 0 \<le> q then \<lfloor>q\<rfloor> else \<lceil>q\<rceil>)"

fun py_int :: "json \<Rightarrow> exn + int" where
  "py_int (JInt n) = Inr n"
| "py_int (JBool b) = Inr (if b then 1 else 0)"
| "py_int (JFloat (Finite q)) = Inr (trunc q)"
| "py_int (JFloat NaN) = Inl (ValueError ''cannot convert float NaN to integer'')"
| "py_int (JFloat (Infinity _)) = Inl (OverflowError ''cannot convert float infinity to integer'')"
| "py_int (JStr s) =
     (case int_of_str s of
        None \<Rightarrow> Inl (ValueError ''invalid literal for int() with base 10'')
      | Some n \<Rightarrow> Inr n)"
| "py_int JNull = Inl (TypeError ''int() argument must be a string, a bytes-like object or a real number'')"
| "py_int (JList _) = Inl (TypeError ''int() argument must be a string, a bytes-like object or a real number'')"
| "py_int (JDict _) = Inl (TypeError ''int() argument must be a string, a bytes-like object or a real number'')"

section \<open>\<open>validate_config\<close>\<close>

definition required_keys :: "string list" where
  "required_keys = [''permissions_to_review'', ''reviewers'', ''smtp_server'', ''smtp_port'',
                    ''sender_email'']"

definition required_permission_keys :: "string list" where
  "required_permission_keys = [''description'', ''permission_details'', ''review_schedule'']"

definition required_reviewer_keys :: "string list" where
  "required_reviewer_keys = [''name'', ''email'']"

text \<open>The loop \<open>for key in keys: if key not in obj: raise ValueError(msg + key)\<close>.\<close>

fun check_keys :: "string \<Rightarrow> string list \<Rightarrow> json \<Rightarrow> exn + unit" where
  "check_keys msg [] obj = Inr ()"
| "check_keys msg (k # ks) obj =
     bind (py_in k obj)
       (\<lambda>present. if \<not> present then Inl (ValueError (msg @ k)) else check_keys msg ks obj)"

text \<open>\<open>not isinstance(v, str) or "@" not in v\<close>.\<close>

fun not_an_email :: "json \<Rightarrow> bool" where
  "not_an_email (JStr s) = (CHR ''@'' \<notin> set s)"
| "not_an_email _ = True"

definition validate_permission :: "json \<Rightarrow> exn + unit" where
  "validate_permission permission =
     (if \<not> is_dict permission
      then Inl (ValueError ''Each permission entry in permissions_to_review must be a dictionary.'')
      else bind (check_keys ''Missing required key in permission: '' required_permission_keys permission)
        (\<lambda>_. bind (py_getitem permission ''permission_details'')
        (\<lambda>details. if \<not> is_dict details
           then Inl (ValueError ''permission_details must be a dictionary'')
           else bind (py_getitem permission ''review_schedule'')
        (\<lambda>sched. if \<not> is_str sched
           then Inl (ValueError ''review_schedule must be a string'')
           else Inr ()))))"

definition validate_reviewer :: "json \<Rightarrow> exn + unit" where
  "validate_reviewer reviewer =
     (if \<not> is_dict reviewer
      then Inl (ValueError ''Each reviewer entry in reviewers must be a dictionary.'')
      else bind (check_keys ''Missing required key in reviewer: '' required_reviewer_keys reviewer)
        (\<lambda>_. bind (py_getitem reviewer ''email'')
        (\<lambda>email. if not_an_email email
           then Inl (ValueError ''Reviewer email must be a valid email address.'')
           else Inr ())))"

definition port_message :: "string" where
  "port_message = ''smtp_port must be an integer between 1 and 65535''"

text \<open>
  Lines 111 to 116: the \<open>try\<close> body converts and checks the range; the handler catches
  \<open>ValueError\<close> only and raises it again with the same message. Any other exception of
  the conversion leaves the function as it is.
\<close>

definition check_port :: "json \<Rightarrow> exn + unit" where
  "check_port v =
     (case bind (py_int v)
             (\<lambda>port. if \<not> (0 < port \<and> port < 65535) then Inl (ValueError port_message) else Inr ())
      of Inl (ValueError _) \<Rightarrow> Inl (ValueError port_message)
       | Inl e \<Rightarrow> Inl e
       | Inr u \<Rightarrow> Inr u)"

definition validate_config :: "json \<Rightarrow> exn + unit" where
  "validate_config config =
     bind (check_keys ''Missing required configuration key: '' required_keys config)
     (\<lambda>_. bind (py_getitem config ''permissions_to_review'')
     (\<lambda>perms. case perms of
        JList ps \<Rightarrow>
          bind (for_each validate_permission ps)
          (\<lambda>_. bind (py_getitem config ''reviewers'')
          (\<lambda>revs. case revs of
             JList rs \<Rightarrow>
               bind (for_each validate_reviewer rs)
               (\<lambda>_. bind (py_getitem config ''smtp_server'')
               (\<lambda>server. if \<not> is_str server
                  then Inl (ValueError ''smtp_server must be a string.'')
                  else bind (py_getitem config ''smtp_port'')
               (\<lambda>port. bind (check_port port)
               (\<lambda>_. bind (py_getitem config ''sender_email'')
               (\<lambda>sender. if not_an_email sender
                  then Inl (ValueError ''Sender email must be a valid email address.'')
                  else Inr ())))))
           | _ \<Rightarrow> Inl (ValueError ''reviewers must be a list of dictionaries.'')))
      | _ \<Rightarrow> Inl (ValueError ''permissions_to_review must be a list of dictionaries.'')))"

section \<open>Effects\<close>

text \<open>
  What the program does to the outside is recorded as a trace of events, oldest first:
  log lines, console lines, every text handed to \<open>eval\<close>, every call of
  \<open>create_review_task\<close> with its five arguments, every message handed to the SMTP
  transport (\<open>smtplib.SMTP(server, port)\<close> and \<open>sendmail\<close>) and every \<open>time.sleep\<close>.
\<close>

datatype event =
    LogInfo string
  | LogError string
  | Print string
  | Eval string
  | CallCreateReviewTask json json json json json
  | Deliver string string json json json json
  | Sleep nat

text \<open>
  Modelled from the spec: the trigger that the \<open>schedule\<close> library (not part of the
  sources) builds from a recurrence expression: an interval, a unit and an optional
  time of day.
\<close>

record trigger =
  t_interval :: nat
  t_unit :: string
  t_at :: "string option"

text \<open>
  A registered job holds its trigger and its callable. The callable that line 201 passes
  to \<open>do\<close> is the nested function \<open>job\<close> of \<open>schedule_reviews\<close>. A Python closure
  holds the variables of the enclosing activation, not their values: \<open>job\<close> reads
  \<open>permission\<close>, \<open>reviewer\<close> and \<open>config\<close> from the frame of \<open>schedule_reviews\<close> at the
  moment it is called. The frame is therefore part of the state; a variable that has not
  been bound yet is \<open>None\<close>. The evaluated text may register other callables as well;
  of such a callable the model keeps whether it returns or which exception it raises when
  it is called.
\<close>

datatype callable = Closure_job | Other "exn option"

record job =
  job_trigger :: trigger
  job_func :: callable

record frame =
  f_config :: json
  f_permission :: "json option"
  f_reviewer :: "json option"

record world =
  trace :: "event list"
  jobs :: "job list"
  frame :: frame

definition init_world :: world where
  "init_world = \<lparr>trace = [], jobs = [],
     frame = \<lparr>f_config = JNull, f_permission = None, f_reviewer = None\<rparr>\<rparr>"

definition emit :: "event \<Rightarrow> world \<Rightarrow> world" where
  "emit e w = w\<lparr>trace := trace w @ [e]\<rparr>"

text \<open>
  What \<open>eval\<close> does with a text. The text is arbitrary Python that runs inside
  \<open>schedule_reviews\<close>: it can change the scheduler's list of jobs in any way (register
  one job, several, none, clear the list) and then return, raise an \<open>Exception\<close>, or
  raise \<open>SystemExit\<close>, which no handler of the program catches. The first three
  outcomes carry the list of jobs as the evaluation leaves it. It can also do anything
  else: change the config, a permission or a reviewer (all visible in its scope), replace
  functions of the program, write files. The model does not follow a run beyond such an
  evaluation: that outcome is \<open>Beyond\<close>.
\<close>

datatype eval_outcome =
    Returns "job list"
  | Raises exn "job list"
  | Leaves nat "job list"
  | Beyond

text \<open>
  What lies outside the sources is a parameter of the model:
  \<^item> \<open>py_str\<close>: Python's \<open>str()\<close> of a value that is not a string, as an f-string renders it;
  \<^item> \<open>py_eval\<close>: the outcome of \<open>eval\<close> on a text, in the state in which it is called;
  \<^item> \<open>transport\<close>: whether the SMTP transport raises, given everything that happened so
    far (the last event is the delivery being attempted);
  \<^item> \<open>due\<close>: whether \<open>schedule.run_pending\<close>, at a given tick, finds the job at a
    given position of the scheduler's list due;
  \<^item> \<open>read_config\<close>: opening the file and \<open>json.load\<close>.
\<close>

record env =
  py_str :: "json \<Rightarrow> string"
  py_eval :: "string \<Rightarrow> world \<Rightarrow> eval_outcome"
  transport :: "event list \<Rightarrow> exn option"
  due :: "nat \<Rightarrow> nat \<Rightarrow> bool"
  read_config :: "string \<Rightarrow> exn + json"

text \<open>A value inside an f-string: a string as it is, anything else through \<open>str()\<close>.\<close>

definition render :: "env \<Rightarrow> json \<Rightarrow> string" where
  "render E v = (case v of JStr s \<Rightarrow> s | _ \<Rightarrow> py_str E v)"

text \<open>\<open>str(e)\<close> of an exception.\<close>

fun exn_text :: "exn \<Rightarrow> string" where
  "exn_text (ValueError m) = m"
| "exn_text (TypeError m) = m"
| "exn_text (KeyError k) = [CHR 0x27] @ k @ [CHR 0x27]"
| "exn_text (NameError m) = m"
| "exn_text (OverflowError m) = m"
| "exn_text (FileNotFoundError m) = m"
| "exn_text (JSONDecodeError m) = m"
| "exn_text (SMTPException m) = m"
| "exn_text (OtherError m) = m"

text \<open>Iterating over a value: a list gives its elements, a dict its keys, a string its
  characters; anything else raises.\<close>

fun py_iter :: "json \<Rightarrow> exn + json list" where
  "py_iter (JList xs) = Inr xs"
| "py_iter (JDict m) = Inr (map JStr (remdups (map fst m)))"
| "py_iter (JStr s) = Inr (map (\<lambda>c. JStr [c]) s)"
| "py_iter _ = Inl (TypeError ''object is not iterable'')"

section \<open>\<open>send_email\<close>, \<open>create_review_task\<close>, \<open>send_test_email\<close>\<close>

definition send_email ::
  "env \<Rightarrow> string \<Rightarrow> string \<Rightarrow> json \<Rightarrow> json \<Rightarrow> json \<Rightarrow> json \<Rightarrow> world \<Rightarrow> (exn + unit) \<times> world" where
  "send_email E subject body recipient smtp_server smtp_port sender_email w =
     (let w1 = emit (Deliver subject body recipient smtp_server smtp_port sender_email) w in
      case transport E (trace w1) of
        None \<Rightarrow> (Inr (), emit (LogInfo (''Email sent successfully to '' @ render E recipient)) w1)
      | Some (SMTPException m) \<Rightarrow>
          (Inl (SMTPException m),
           emit (LogError (''Error sending email to '' @ render E recipient @ '': '' @ m)) w1)
      | Some e \<Rightarrow> (Inl e, w1))"

definition review_body :: "string \<Rightarrow> string \<Rightarrow> string \<Rightarrow> string" where
  "review_body name description details =
     ''\<newline>    Dear '' @ name @ '',\<newline>\<newline>'' @
     ''    A review is required for the following permission:\<newline>\<newline>'' @
     ''    Description: '' @ description @ ''\<newline>'' @
     ''    Details: '' @ details @ ''\<newline>\<newline>'' @
     ''    Please review this permission and ensure it is still appropriate.  \<newline>\<newline>'' @
     ''    [Link to review form - Placeholder]\<newline>\<newline>'' @
     ''    Thank you,\<newline>'' @
     ''    The Permission Review System\<newline>    ''"

text \<open>The handler of line 180: its own f-string subscripts again, outside any \<open>try\<close>.\<close>

definition send_failed :: "env \<Rightarrow> json \<Rightarrow> json \<Rightarrow> exn \<Rightarrow> world \<Rightarrow> (exn + unit) \<times> world" where
  "send_failed E permission reviewer e w =
     (case py_getitem permission ''description'' of
        Inl e' \<Rightarrow> (Inl e', w)
      | Inr d \<Rightarrow>
          (case py_getitem reviewer ''email'' of
             Inl e' \<Rightarrow> (Inl e', w)
           | Inr em \<Rightarrow>
               (Inr (), emit (LogError (''Failed to send email for '' @ render E d @
                   '' review to '' @ render E em @ '': '' @ exn_text e)) w)))"

definition create_review_task ::
  "env \<Rightarrow> json \<Rightarrow> json \<Rightarrow> json \<Rightarrow> json \<Rightarrow> json \<Rightarrow> world \<Rightarrow> (exn + unit) \<times> world" where
  "create_review_task E permission reviewer smtp_server smtp_port sender_email w =
     (let w0 = emit (CallCreateReviewTask permission reviewer smtp_server smtp_port sender_email) w in
      case py_getitem permission ''description'' of
        Inl e \<Rightarrow> (Inl e, w0)
      | Inr d \<Rightarrow>
      (case py_getitem reviewer ''name'' of
        Inl e \<Rightarrow> (Inl e, w0)
      | Inr n \<Rightarrow>
      (case py_getitem permission ''permission_details'' of
        Inl e \<Rightarrow> (Inl e, w0)
      | Inr details \<Rightarrow>
          let subject = ''Permission Review Required: '' @ render E d;
              body = review_body (render E n) (render E d) (render E details)
          in (case py_getitem reviewer ''email'' of
                Inl e \<Rightarrow> send_failed E permission reviewer e w0
              | Inr em \<Rightarrow>
                  (case send_email E subject body em smtp_server smtp_port sender_email w0 of
                     (Inl e, w1) \<Rightarrow> send_failed E permission reviewer e w1
                   | (Inr u, w1) \<Rightarrow> (Inr (), w1))))))"

definition send_test_email :: "env \<Rightarrow> json \<Rightarrow> json \<Rightarrow> json \<Rightarrow> world \<Rightarrow> (exn + unit) \<times> world" where
  "send_test_email E smtp_server smtp_port sender_email w =
     (let test_recipient = sender_email;
          subject = ''Test Email from Permission Review Tool'';
          body = ''This is a test email to verify that the email settings are configured correctly.''
      in case send_email E subject body test_recipient smtp_server smtp_port sender_email w of
           (Inr u, w1) \<Rightarrow> (Inr (), emit (Print ''Test email sent successfully. Check your inbox.'') w1)
         | (Inl e, w1) \<Rightarrow>
             (Inr (), emit (LogError (''Failed to send test email: '' @ exn_text e))
                        (emit (Print (''Failed to send test email: '' @ exn_text e)) w1)))"

section \<open>\<open>schedule_reviews\<close>\<close>

text \<open>The text common to the two log lines of lines 202 and 204:
  \<open>{permission['description']} by {reviewer['name']} with schedule: {schedule_string}\<close>.\<close>

definition schedule_text :: "env \<Rightarrow> json \<Rightarrow> json \<Rightarrow> json \<Rightarrow> exn + string" where
  "schedule_text E permission reviewer schedule_string =
     bind (py_getitem permission ''description'')
     (\<lambda>d. bind (py_getitem reviewer ''name'')
     (\<lambda>n. Inr (render E d @ '' by '' @ render E n @ '' with schedule: '' @
                render E schedule_string)))"

text \<open>
  How the setup can end other than by returning: an \<open>Exception\<close> leaves it, a
  \<open>SystemExit\<close> with its exit code leaves it, or the evaluated text did something that
  the model does not follow.
\<close>

datatype abort = Exception exn | SystemExit nat | Unmodelled

text \<open>The handler of line 203.\<close>

definition schedule_failed ::
  "env \<Rightarrow> json \<Rightarrow> json \<Rightarrow> json \<Rightarrow> exn \<Rightarrow> world \<Rightarrow> (abort + unit) \<times> world" where
  "schedule_failed E permission reviewer schedule_string e w =
     (case schedule_text E permission reviewer schedule_string of
        Inl e' \<Rightarrow> (Inl (Exception e'), w)
      | Inr text \<Rightarrow>
          (Inr (), emit (LogError (''Failed to schedule review for '' @ text @ '': '' @ exn_text e)) w))"

text \<open>
  The body of the inner loop, lines 193 to 204. The text handed to \<open>eval\<close> is the
  f-string \<open>schedule.{schedule_string}.do(job)\<close>, with no check before it. When the
  evaluation returns, the success line is logged; when it raises an \<open>Exception\<close>, the
  handler logs it; a \<open>SystemExit\<close> passes the handler, which catches \<open>Exception\<close> only.
\<close>

definition schedule_pair :: "env \<Rightarrow> json \<Rightarrow> json \<Rightarrow> world \<Rightarrow> (abort + unit) \<times> world" where
  "schedule_pair E permission reviewer w =
     (case py_getitem permission ''review_schedule'' of
        Inl e \<Rightarrow> (Inl (Exception e), w)
      | Inr schedule_string \<Rightarrow>
          let expr = ''schedule.'' @ render E schedule_string @ ''.do(job)'';
              w1 = emit (Eval expr) w
          in (case py_eval E expr w1 of
                Beyond \<Rightarrow> (Inl Unmodelled, w1)
              | Leaves code js \<Rightarrow> (Inl (SystemExit code), w1\<lparr>jobs := js\<rparr>)
              | Raises e js \<Rightarrow> schedule_failed E permission reviewer schedule_string e (w1\<lparr>jobs := js\<rparr>)
              | Returns js \<Rightarrow>
                  let w2 = w1\<lparr>jobs := js\<rparr>
                  in (case schedule_text E permission reviewer schedule_string of
                        Inl e \<Rightarrow> schedule_failed E permission reviewer schedule_string e w2
                      | Inr text \<Rightarrow> (Inr (), emit (LogInfo (''Scheduled review for '' @ text)) w2))))"

text \<open>Each iteration binds the loop variable in the frame, then runs the body.\<close>

fun reviewers_loop :: "env \<Rightarrow> json \<Rightarrow> json list \<Rightarrow> world \<Rightarrow> (abort + unit) \<times> world" where
  "reviewers_loop E permission [] w = (Inr (), w)"
| "reviewers_loop E permission (reviewer # rs) w =
     (case schedule_pair E permission reviewer (w\<lparr>frame := (frame w)\<lparr>f_reviewer := Some reviewer\<rparr>\<rparr>) of
        (Inl a, w1) \<Rightarrow> (Inl a, w1)
      | (Inr u, w1) \<Rightarrow> reviewers_loop E permission rs w1)"

fun permissions_loop :: "env \<Rightarrow> json \<Rightarrow> json list \<Rightarrow> world \<Rightarrow> (abort + unit) \<times> world" where
  "permissions_loop E config [] w = (Inr (), w)"
| "permissions_loop E config (permission # ps) w =
     (let w1 = w\<lparr>frame := (frame w)\<lparr>f_permission := Some permission\<rparr>\<rparr> in
      case bind (py_getitem config ''reviewers'') py_iter of
        Inl e \<Rightarrow> (Inl (Exception e), w1)
      | Inr rs \<Rightarrow>
          (case reviewers_loop E permission rs w1 of
             (Inl a, w2) \<Rightarrow> (Inl a, w2)
           | (Inr u, w2) \<Rightarrow> permissions_loop E config ps w2))"

definition schedule_reviews :: "env \<Rightarrow> json \<Rightarrow> world \<Rightarrow> (abort + unit) \<times> world" where
  "schedule_reviews E config w =
     (let w0 = w\<lparr>frame := \<lparr>f_config = config, f_permission = None, f_reviewer = None\<rparr>\<rparr> in
      case bind (py_getitem config ''permissions_to_review'') py_iter of
        Inl e \<Rightarrow> (Inl (Exception e), w0)
      | Inr ps \<Rightarrow> permissions_loop E config ps w0)"

text \<open>
  The nested function \<open>job\<close>, lines 195 and 196, when it is called: its free variables
  are read from the frame as it is then.
\<close>

definition job :: "env \<Rightarrow> world \<Rightarrow> (exn + unit) \<times> world" where
  "job E w =
     (case f_permission (frame w) of
        None \<Rightarrow> (Inl (NameError ''permission''), w)
      | Some permission \<Rightarrow>
      (case f_reviewer (frame w) of
        None \<Rightarrow> (Inl (NameError ''reviewer''), w)
      | Some reviewer \<Rightarrow>
      (case py_getitem (f_config (frame w)) ''smtp_server'' of
        Inl e \<Rightarrow> (Inl e, w)
      | Inr smtp_server \<Rightarrow>
      (case py_getitem (f_config (frame w)) ''smtp_port'' of
        Inl e \<Rightarrow> (Inl e, w)
      | Inr smtp_port \<Rightarrow>
      (case py_getitem (f_config (frame w)) ''sender_email'' of
        Inl e \<Rightarrow> (Inl e, w)
      | Inr sender_email \<Rightarrow>
          create_review_task E permission reviewer smtp_server smtp_port sender_email w)))))"

fun call :: "env \<Rightarrow> callable \<Rightarrow> world \<Rightarrow> (exn + unit) \<times> world" where
  "call E Closure_job w = job E w"
| "call E (Other None) w = (Inr (), w)"
| "call E (Other (Some e)) w = (Inl e, w)"

section \<open>The run loop and \<open>main\<close>\<close>

text \<open>
  Modelled from the spec: \<open>schedule.run_pending\<close> (library code, not part of the
  sources) finds the registered jobs that are due and runs them one after the other, in
  registration order. Neither the library nor \<open>main\<close> puts a handler around a job: an
  exception of a job's callable leaves \<open>run_pending\<close> at once.
\<close>

fun run_jobs :: "env \<Rightarrow> job list \<Rightarrow> world \<Rightarrow> (exn + unit) \<times> world" where
  "run_jobs E [] w = (Inr (), w)"
| "run_jobs E (j # js) w =
     (case call E (job_func j) w of
        (Inl e, w1) \<Rightarrow> (Inl e, w1)
      | (Inr u, w1) \<Rightarrow> run_jobs E js w1)"

definition due_jobs :: "env \<Rightarrow> nat \<Rightarrow> job list \<Rightarrow> job list" where
  "due_jobs E tick js = map (\<lambda>i. js ! i) (filter (due E tick) [0..<length js])"

definition run_pending :: "env \<Rightarrow> nat \<Rightarrow> world \<Rightarrow> (exn + unit) \<times> world" where
  "run_pending E tick w = run_jobs E (due_jobs E tick (jobs w)) w"

text \<open>
  \<open>while True: schedule.run_pending(); time.sleep(60)\<close>, for a given number of further
  ticks. The loop has no exit of its own: it returns \<open>Inr\<close> only when the given number
  of ticks has been run, and \<open>Inl\<close> when a tick raised.
\<close>

fun run_loop :: "env \<Rightarrow> nat \<Rightarrow> nat \<Rightarrow> world \<Rightarrow> (exn + unit) \<times> world" where
  "run_loop E 0 tick w = (Inr (), w)"
| "run_loop E (Suc n) tick w =
     (case run_pending E tick w of
        (Inl e, w1) \<Rightarrow> (Inl e, w1)
      | (Inr u, w1) \<Rightarrow> run_loop E n (Suc tick) (emit (Sleep 60) w1))"

definition load_config :: "env \<Rightarrow> string \<Rightarrow> world \<Rightarrow> (exn + json) \<times> world" where
  "load_config E config_file w =
     (case read_config E config_file of
        Inr config \<Rightarrow> (Inr config, emit (LogInfo (''Configuration loaded from '' @ config_file)) w)
      | Inl (FileNotFoundError m) \<Rightarrow>
          (Inl (FileNotFoundError m),
           emit (LogError (''Configuration file not found: '' @ config_file)) w)
      | Inl (JSONDecodeError m) \<Rightarrow>
          (Inl (JSONDecodeError m),
           emit (LogError (''Invalid JSON in configuration file: '' @ config_file @
                           ''. Error: '' @ m)) w)
      | Inl e \<Rightarrow> (Inl e, w))"

record args =
  config_path :: string
  test_email :: bool

text \<open>How the process stands: it has exited with a code, it is still in the polling
  loop after the given number of ticks, or an evaluated text has taken it where the model
  does not follow.\<close>

datatype outcome = Exited nat | Polling | Unknown

text \<open>The \<open>except\<close> clauses of \<open>main\<close>, lines 246 to 258.\<close>

fun handle_exn :: "args \<Rightarrow> exn \<Rightarrow> world \<Rightarrow> outcome \<times> world" where
  "handle_exn a (FileNotFoundError m) w =
     (Exited 1, emit (Print (''Error: Configuration file not found: '' @ config_path a)) w)"
| "handle_exn a (JSONDecodeError m) w =
     (Exited 1, emit (Print (''Error: Invalid JSON in configuration file: '' @ config_path a)) w)"
| "handle_exn a (ValueError m) w =
     (Exited 1, emit (Print (''Error: Invalid configuration: '' @ m)) w)"
| "handle_exn a e w =
     (Exited 1, emit (LogError ''An unexpected error occurred.'')
                  (emit (Print (''An unexpected error occurred: '' @ exn_text e)) w))"

definition main :: "env \<Rightarrow> args \<Rightarrow> nat \<Rightarrow> outcome \<times> world" where
  "main E a ticks =
     (case load_config E (config_path a) init_world of
        (Inl e, w1) \<Rightarrow> handle_exn a e w1
      | (Inr config, w1) \<Rightarrow>
      (case validate_config config of
        Inl e \<Rightarrow> handle_exn a e w1
      | Inr u \<Rightarrow>
          if test_email a then
            (case py_getitem config ''smtp_server'' of
               Inl e \<Rightarrow> handle_exn a e w1
             | Inr smtp_server \<Rightarrow>
            (case py_getitem config ''smtp_port'' of
               Inl e \<Rightarrow> handle_exn a e w1
             | Inr smtp_port \<Rightarrow>
            (case py_getitem config ''sender_email'' of
               Inl e \<Rightarrow> handle_exn a e w1
             | Inr sender_email \<Rightarrow>
            (case send_test_email E smtp_server smtp_port sender_email w1 of
               (Inl e, w2) \<Rightarrow> handle_exn a e w2
             | (Inr u, w2) \<Rightarrow> (Exited 0, w2)))))
          else
            (case schedule_reviews E config w1 of
               (Inl (Exception e), w2) \<Rightarrow> handle_exn a e w2
             | (Inl (SystemExit code), w2) \<Rightarrow> (Exited code, w2)
             | (Inl Unmodelled, w2) \<Rightarrow> (Unknown, w2)
             | (Inr u, w2) \<Rightarrow>
                 (case run_loop E ticks 0 w2 of
                    (Inl e, w3) \<Rightarrow> handle_exn a e w3
                  | (Inr u, w3) \<Rightarrow> (Polling, w3)))))"

section \<open>The recurrence grammar\<close>

text \<open>
  Modelled from the spec: the closed grammar of section 4.5,
  \<open>every(<optional integer>).<unit>[.at(<HH:MM[:SS]> string)]\<close>, as a parser to a
  trigger. No function of the sources implements it; it is what the spec asks the
  setup to check a \<open>review_schedule\<close> against.
\<close>

definition units :: "string list" where
  "units = [''seconds'', ''minutes'', ''hours'', ''days'', ''weeks'', ''monday'', ''tuesday'',
            ''wednesday'', ''thursday'', ''friday'', ''saturday'', ''sunday'']"

fun strip_prefix :: "string \<Rightarrow> string \<Rightarrow> string option" where
  "strip_prefix [] s = Some s"
| "strip_prefix (c # cs) [] = None"
| "strip_prefix (c # cs) (d # ds) = (if c = d then strip_prefix cs ds else None)"

definition is_digit :: "char \<Rightarrow> bool" where
  "is_digit c = (digit_val c \<noteq> None)"

definition two_digits :: "string \<Rightarrow> bool" where
  "two_digits s = (length s = 2 \<and> list_all is_digit s)"

definition is_clock :: "string \<Rightarrow> bool" where
  "is_clock s =
     (if length s = 5 then two_digits (take 2 s) \<and> s ! 2 = CHR '':'' \<and> two_digits (drop 3 s)
      else if length s = 8
        then two_digits (take 2 s) \<and> s ! 2 = CHR '':'' \<and> two_digits (take 2 (drop 3 s)) \<and>
             s ! 5 = CHR '':'' \<and> two_digits (drop 6 s)
      else False)"

definition is_quote :: "char \<Rightarrow> bool" where
  "is_quote c = (c = CHR 0x27 \<or> c = CHR 0x22)"

text \<open>The argument of \<open>at\<close>, up to the end of the expression: a quoted clock time and
  the closing parenthesis.\<close>

definition parse_at :: "string \<Rightarrow> string option" where
  "parse_at s =
     (case s of
        [] \<Rightarrow> None
      | q # r \<Rightarrow>
          if is_quote q \<and> 2 \<le> length r \<and> last r = CHR '')'' \<and> last (butlast r) = q \<and>
             is_clock (butlast (butlast r))
          then Some (butlast (butlast r)) else None)"

definition parse_schedule :: "string \<Rightarrow> trigger option" where
  "parse_schedule s =
     (case strip_prefix ''every('' s of
        None \<Rightarrow> None
      | Some r1 \<Rightarrow>
          let ds = takeWhile is_digit r1;
              n = (case nat_literal ds of None \<Rightarrow> 1 | Some k \<Rightarrow> k)
          in (case strip_prefix '').'' (dropWhile is_digit r1) of
                None \<Rightarrow> None
              | Some r2 \<Rightarrow>
                  let u = takeWhile (\<lambda>c. c \<noteq> CHR ''.'') r2;
                      r3 = dropWhile (\<lambda>c. c \<noteq> CHR ''.'') r2
                  in if u \<notin> set units then None
                     else if r3 = [] then Some \<lparr>t_interval = n, t_unit = u, t_at = None\<rparr>
                     else (case strip_prefix ''.at('' r3 of
                             None \<Rightarrow> None
                           | Some r4 \<Rightarrow>
                               (case parse_at r4 of
                                  None \<Rightarrow> None
                                | Some clock \<Rightarrow>
                                    Some \<lparr>t_interval = n, t_unit = u, t_at = Some clock\<rparr>))))"

definition in_grammar :: "string \<Rightarrow> bool" where
  "in_grammar s = (parse_schedule s \<noteq> None)"

section \<open>A concrete configuration\<close>

definition perm_db :: json where
  "perm_db = JDict [(''description'', JStr ''db admin''),
                    (''permission_details'', JDict [(''role'', JStr ''admin'')]),
                    (''review_schedule'', JStr (''every().monday.at('' @ [CHR 0x27] @ ''09:00'' @ [CHR 0x27] @ '')''))]"

definition perm_s3 :: json where
  "perm_s3 = JDict [(''description'', JStr ''s3 write''),
                    (''permission_details'', JDict [(''bucket'', JStr ''logs'')]),
                    (''review_schedule'', JStr ''every(30).minutes'')]"

text \<open>Permissions whose \<open>review_schedule\<close> is outside the grammar: a call of
  \<open>schedule.clear\<close>, a text that is not Python, a call of \<open>exit\<close>, and an expression
  that registers the builtin \<open>len\<close> as a job of its own before the one of the program.\<close>

definition perm_bad :: json where
  "perm_bad = JDict [(''description'', JStr ''vpn''),
                     (''permission_details'', JDict []),
                     (''review_schedule'', JStr ''clear()'')]"

definition perm_syntax :: json where
  "perm_syntax = JDict [(''description'', JStr ''ssh''),
                        (''permission_details'', JDict []),
                        (''review_schedule'', JStr ''every weekday'')]"

definition perm_exit :: json where
  "perm_exit = JDict [(''description'', JStr ''sudo''),
                      (''permission_details'', JDict []),
                      (''review_schedule'', JStr ''every(exit())'')]"

definition perm_len :: json where
  "perm_len = JDict [(''description'', JStr ''wiki''),
                     (''permission_details'', JDict []),
                     (''review_schedule'', JStr ''every().seconds.do(len).scheduler.every().seconds'')]"

definition rev_ann :: json where
  "rev_ann = JDict [(''name'', JStr ''Ann''), (''email'', JStr ''ann@example.com'')]"

definition rev_bob :: json where
  "rev_bob = JDict [(''name'', JStr ''Bob''), (''email'', JStr ''bob@example.com'')]"

definition config_of :: "json list \<Rightarrow> json list \<Rightarrow> json \<Rightarrow> json" where
  "config_of ps rs port =
     JDict [(''permissions_to_review'', JList ps), (''reviewers'', JList rs),
            (''smtp_server'', JStr ''localhost''), (''smtp_port'', port),
            (''sender_email'', JStr ''permission_review@example.com'')]"

definition demo_config :: json where
  "demo_config = config_of [perm_db, perm_s3] [rev_ann, rev_bob] (JInt 25)"

text \<open>
  What Python and the \<open>schedule\<close> library do with the texts that the setup builds from
  the permissions above; of every other text this table knows nothing (\<open>Beyond\<close>).
  \<^item> The two expressions of the grammar build a job, give it the closure \<open>job\<close> and
    append it to the scheduler's jobs.
  \<^item> \<open>schedule.every weekday.do(job)\<close> is not an expression: \<open>eval\<close> raises
    \<open>SyntaxError\<close> before anything runs.
  \<^item> \<open>schedule.clear().do(job)\<close> empties the scheduler's jobs; \<open>clear\<close> returns \<open>None\<close>,
    and \<open>None.do\<close> raises \<open>AttributeError\<close>.
  \<^item> \<open>schedule.every(exit()).do(job)\<close> evaluates the argument first: \<open>exit()\<close> raises
    \<open>SystemExit\<close> with no code, which is exit status 0.
  \<^item> In the last text \<open>do(len)\<close> appends a job whose callable is \<open>len\<close> without an
    argument and returns that job; through its \<open>scheduler\<close> a second job is built and
    given the closure \<open>job\<close>. Called, \<open>len()\<close> raises \<open>TypeError\<close>.
\<close>

definition every_second :: trigger where
  "every_second = \<lparr>t_interval = 1, t_unit = ''seconds'', t_at = None\<rparr>"

definition known_eval :: "string \<Rightarrow> world \<Rightarrow> eval_outcome" where
  "known_eval text w =
     (if text = ''schedule.every().monday.at('' @ [CHR 0x27] @ ''09:00'' @ [CHR 0x27] @ '').do(job)''
      then Returns (jobs w @ [\<lparr>job_trigger = \<lparr>t_interval = 1, t_unit = ''monday'', t_at = Some ''09:00''\<rparr>,
                               job_func = Closure_job\<rparr>])
      else if text = ''schedule.every(30).minutes.do(job)''
      then Returns (jobs w @ [\<lparr>job_trigger = \<lparr>t_interval = 30, t_unit = ''minutes'', t_at = None\<rparr>,
                               job_func = Closure_job\<rparr>])
      else if text = ''schedule.every weekday.do(job)''
      then Raises (OtherError ''invalid syntax (<string>, line 1)'') (jobs w)
      else if text = ''schedule.clear().do(job)''
      then Raises (OtherError ([CHR 0x27] @ ''NoneType'' @ [CHR 0x27] @ '' object has no attribute '' @
                               [CHR 0x27] @ ''do'' @ [CHR 0x27])) []
      else if text = ''schedule.every(exit()).do(job)''
      then Leaves 0 (jobs w)
      else if text = ''schedule.every().seconds.do(len).scheduler.every().seconds.do(job)''
      then Returns (jobs w @
             [\<lparr>job_trigger = every_second,
               job_func = Other (Some (TypeError ''len() takes exactly one argument (0 given)''))\<rparr>,
              \<lparr>job_trigger = every_second, job_func = Closure_job\<rparr>])
      else Beyond)"

text \<open>An environment in which every delivery succeeds and every job is due at every
  tick, and one in which every delivery fails.\<close>

definition demo_env :: "json \<Rightarrow> env" where
  "demo_env config = \<lparr>py_str = (\<lambda>v. ''<value>''), py_eval = known_eval,
     transport = (\<lambda>h. None), due = (\<lambda>tick i. True), read_config = (\<lambda>path. Inr config)\<rparr>"

definition failing_env :: "json \<Rightarrow> env" where
  "failing_env config = \<lparr>py_str = (\<lambda>v. ''<value>''), py_eval = known_eval,
     transport = (\<lambda>h. Some (SMTPException ''connection refused'')), due = (\<lambda>tick i. True),
     read_config = (\<lambda>path. Inr config)\<rparr>"

definition demo_args :: "bool \<Rightarrow> args" where
  "demo_args t = \<lparr>config_path = ''permission_review_config.json'', test_email = t\<rparr>"

section \<open>The schema rules in the spec's words\<close>

text \<open>
  The six rules of section 4.2 of the spec, each as a predicate on the document, written
  from the spec's sentences and not from the code; \<open>validate_config\<close> is compared with
  them below. \<open>item v k\<close> is the value under a key (\<open>JNull\<close> when there is none).
\<close>

definition item :: "json \<Rightarrow> string \<Rightarrow> json" where
  "item v k = (case py_getitem v k of Inr x \<Rightarrow> x | Inl e \<Rightarrow> JNull)"

definition has_keys :: "string list \<Rightarrow> json \<Rightarrow> bool" where
  "has_keys ks v = (case v of JDict m \<Rightarrow> list_all (\<lambda>k. k \<in> set (map fst m)) ks | _ \<Rightarrow> False)"

definition is_email :: "json \<Rightarrow> bool" where
  "is_email v = (case v of JStr s \<Rightarrow> CHR ''@'' \<in> set s | _ \<Rightarrow> False)"

definition rule_keys :: "json \<Rightarrow> bool" where
  "rule_keys c = has_keys [''permissions_to_review'', ''reviewers'', ''smtp_server'',
                           ''smtp_port'', ''sender_email''] c"

definition is_permission :: "json \<Rightarrow> bool" where
  "is_permission p =
     (has_keys [''description'', ''permission_details'', ''review_schedule''] p \<and>
      is_dict (item p ''permission_details'') \<and> is_str (item p ''review_schedule''))"

definition rule_permissions :: "json \<Rightarrow> bool" where
  "rule_permissions c =
     (case item c ''permissions_to_review'' of JList ps \<Rightarrow> list_all is_permission ps | _ \<Rightarrow> False)"

definition is_reviewer :: "json \<Rightarrow> bool" where
  "is_reviewer r = (has_keys [''name'', ''email''] r \<and> is_email (item r ''email''))"

definition rule_reviewers :: "json \<Rightarrow> bool" where
  "rule_reviewers c =
     (case item c ''reviewers'' of JList rs \<Rightarrow> list_all is_reviewer rs | _ \<Rightarrow> False)"

definition rule_server :: "json \<Rightarrow> bool" where
  "rule_server c = is_str (item c ''smtp_server'')"

definition rule_port :: "json \<Rightarrow> bool" where
  "rule_port c =
     (case py_int (item c ''smtp_port'') of Inr n \<Rightarrow> 0 < n \<and> n < 65535 | Inl e \<Rightarrow> False)"

definition rule_sender :: "json \<Rightarrow> bool" where
  "rule_sender c = is_email (item c ''sender_email'')"

text \<open>The number of the first rule that the document violates, in the spec's order.\<close>

definition first_violated :: "json \<Rightarrow> nat option" where
  "first_violated c =
     (if \<not> rule_keys c then Some 1
      else if \<not> rule_permissions c then Some 2
      else if \<not> rule_reviewers c then Some 3
      else if \<not> rule_server c then Some 4
      else if \<not> rule_port c then Some 5
      else if \<not> rule_sender c then Some 6
      else None)"

text \<open>The rule that an error of \<open>validate_config\<close> reports, read off its message; the
  exceptions that are not a \<open>ValueError\<close> come from the conversion of the port.\<close>

definition rule_of_message :: "string \<Rightarrow> nat option" where
  "rule_of_message m =
     (if starts_with ''Missing required configuration key: '' m then Some 1
      else if m = ''permissions_to_review must be a list of dictionaries.'' \<or>
              m = ''Each permission entry in permissions_to_review must be a dictionary.'' \<or>
              starts_with ''Missing required key in permission: '' m \<or>
              m = ''permission_details must be a dictionary'' \<or>
              m = ''review_schedule must be a string'' then Some 2
      else if m = ''reviewers must be a list of dictionaries.'' \<or>
              m = ''Each reviewer entry in reviewers must be a dictionary.'' \<or>
              starts_with ''Missing required key in reviewer: '' m \<or>
              m = ''Reviewer email must be a valid email address.'' then Some 3
      else if m = ''smtp_server must be a string.'' then Some 4
      else if m = ''smtp_port must be an integer between 1 and 65535'' then Some 5
      else if m = ''Sender email must be a valid email address.'' then Some 6
      else None)"

fun rule_of_exn :: "exn \<Rightarrow> nat option" where
  "rule_of_exn (ValueError m) = rule_of_message m"
| "rule_of_exn (TypeError m) = Some 5"
| "rule_of_exn (OverflowError m) = Some 5"
| "rule_of_exn e = None"

text \<open>The last three checks of \<open>validate_config\<close>, lines 109 to 118, on their own
  (an auxiliary definition for the proofs).\<close>

definition validate_rest :: "json \<Rightarrow> exn + unit" where
  "validate_rest c =
     (if \<not> is_str (item c ''smtp_server'') then Inl (ValueError ''smtp_server must be a string.'')
      else bind (check_port (item c ''smtp_port''))
        (\<lambda>_. if not_an_email (item c ''sender_email'')
              then Inl (ValueError ''Sender email must be a valid email address.'')
              else Inr ()))"

section \<open>What the setup and a job do, for the statements below\<close>

definition permissions_of :: "json \<Rightarrow> json list" where
  "permissions_of c = (case item c ''permissions_to_review'' of JList ps \<Rightarrow> ps | _ \<Rightarrow> [])"

definition reviewers_of :: "json \<Rightarrow> json list" where
  "reviewers_of c = (case item c ''reviewers'' of JList rs \<Rightarrow> rs | _ \<Rightarrow> [])"

text \<open>The \<open>review_schedule\<close> string of a permission, and the text that the setup hands
  to \<open>eval\<close> for it.\<close>

definition schedule_string_of :: "json \<Rightarrow> string" where
  "schedule_string_of p = (case item p ''review_schedule'' of JStr s \<Rightarrow> s | _ \<Rightarrow> [])"

definition schedule_expr :: "json \<Rightarrow> string" where
  "schedule_expr p = ''schedule.'' @ schedule_string_of p @ ''.do(job)''"

definition pair_text :: "env \<Rightarrow> json \<Rightarrow> json \<Rightarrow> string" where
  "pair_text E p r =
     render E (item p ''description'') @ '' by '' @ render E (item r ''name'') @
     '' with schedule: '' @ schedule_string_of p"

text \<open>
  The two plain ways in which an evaluation can end: it builds one job with a trigger,
  gives it the closure \<open>job\<close>, appends it to the scheduler's jobs and returns (what the
  library does with an expression of the grammar that it accepts); or it raises an
  \<open>Exception\<close> and leaves the jobs as they were. \<open>evaluates_as E text v\<close> says that the
  evaluation of \<open>text\<close> ends in the plain way \<open>v\<close> in every state.
\<close>

definition plain_outcome :: "exn + trigger \<Rightarrow> job list \<Rightarrow> eval_outcome" where
  "plain_outcome v js =
     (case v of
        Inr t \<Rightarrow> Returns (js @ [\<lparr>job_trigger = t, job_func = Closure_job\<rparr>])
      | Inl e \<Rightarrow> Raises e js)"

definition evaluates_as :: "env \<Rightarrow> string \<Rightarrow> exn + trigger \<Rightarrow> bool" where
  "evaluates_as E text v = (\<forall>w. py_eval E text w = plain_outcome v (jobs w))"

text \<open>The events and the registered jobs of one (permission, reviewer) pair, when the
  evaluation for the permission \<open>p\<close> ends in the plain way \<open>v p\<close>.\<close>

definition pair_events :: "env \<Rightarrow> (json \<Rightarrow> exn + trigger) \<Rightarrow> json \<times> json \<Rightarrow> event list" where
  "pair_events E v pr =
     (case v (fst pr) of
        Inr t \<Rightarrow> [Eval (schedule_expr (fst pr)),
                  LogInfo (''Scheduled review for '' @ pair_text E (fst pr) (snd pr))]
      | Inl e \<Rightarrow> [Eval (schedule_expr (fst pr)),
                  LogError (''Failed to schedule review for '' @ pair_text E (fst pr) (snd pr) @
                            '': '' @ exn_text e)])"

definition pair_jobs :: "(json \<Rightarrow> exn + trigger) \<Rightarrow> json \<times> json \<Rightarrow> job list" where
  "pair_jobs v pr =
     (case v (fst pr) of
        Inr t \<Rightarrow> [\<lparr>job_trigger = t, job_func = Closure_job\<rparr>]
      | Inl e \<Rightarrow> [])"

definition pairs_of :: "json \<Rightarrow> (json \<times> json) list" where
  "pairs_of c = List.product (permissions_of c) (reviewers_of c)"

fun is_eval :: "event \<Rightarrow> bool" where
  "is_eval (Eval s) = True"
| "is_eval _ = False"

fun is_call :: "event \<Rightarrow> bool" where
  "is_call (CallCreateReviewTask p r server port sender) = True"
| "is_call _ = False"

fun is_deliver :: "event \<Rightarrow> bool" where
  "is_deliver (Deliver subject body recipient server port sender) = True"
| "is_deliver _ = False"


fun is_log :: "event \<Rightarrow> bool" where
  "is_log (LogInfo s) = True"
| "is_log (LogError s) = True"
| "is_log (Print s) = True"
| "is_log _ = False"

fun succeeded :: "exn + 'a \<Rightarrow> bool" where
  "succeeded (Inr v) = True"
| "succeeded (Inl e) = False"

text \<open>Configurations with one permission whose \<open>review_schedule\<close> is outside the
  grammar, before or after a permission whose schedule is an expression of the grammar.\<close>

definition bad_config :: json where
  "bad_config = config_of [perm_bad, perm_s3] [rev_ann, rev_bob] (JInt 25)"

definition cleared_config :: json where
  "cleared_config = config_of [perm_s3, perm_bad] [rev_ann, rev_bob] (JInt 25)"

definition syntax_config :: json where
  "syntax_config = config_of [perm_syntax, perm_s3] [rev_ann, rev_bob] (JInt 25)"

definition exit_config :: json where
  "exit_config = config_of [perm_exit, perm_s3] [rev_ann, rev_bob] (JInt 25)"

definition len_config :: json where
  "len_config = config_of [perm_len] [rev_ann] (JInt 25)"


text \<open>What one call of the closure \<open>job\<close> does when the frame holds the permission
  \<open>p\<close> and the reviewer \<open>r\<close>: the call of \<open>create_review_task\<close> and the delivery.\<close>

definition job_call :: "json \<Rightarrow> json \<Rightarrow> json \<Rightarrow> event" where
  "job_call c p r =
     CallCreateReviewTask p r (item c ''smtp_server'') (item c ''smtp_port'') (item c ''sender_email'')"

definition job_delivery :: "env \<Rightarrow> json \<Rightarrow> json \<Rightarrow> json \<Rightarrow> event" where
  "job_delivery E c p r =
     Deliver (''Permission Review Required: '' @ render E (item p ''description''))
       (review_body (render E (item r ''name'')) (render E (item p ''description''))
          (render E (item p ''permission_details'')))
       (item r ''email'') (item c ''smtp_server'') (item c ''smtp_port'') (item c ''sender_email'')"

text \<open>The trace without its log and console lines.\<close>

definition effects :: "event list \<Rightarrow> event list" where
  "effects evs = filter (\<lambda>e. \<not> is_log e) evs"


text \<open>The world after \<open>load_config\<close> has returned, and the delivery that test-email mode
  asks of the transport.\<close>

definition loaded_world :: "args \<Rightarrow> world" where
  "loaded_world a = emit (LogInfo (''Configuration loaded from '' @ config_path a)) init_world"

definition test_delivery :: "json \<Rightarrow> event" where
  "test_delivery c =
     Deliver ''Test Email from Permission Review Tool''
       ''This is a test email to verify that the email settings are configured correctly.''
       (item c ''sender_email'') (item c ''smtp_server'') (item c ''smtp_port'')
       (item c ''sender_email'')"



text \<open>The triggers of the two expressions of the grammar, and the plain way in which,
  by the table, the evaluation ends for each permission of the examples.\<close>

definition demo_trigger :: "json \<Rightarrow> trigger" where
  "demo_trigger p =
     (if p = perm_db then \<lparr>t_interval = 1, t_unit = ''monday'', t_at = Some ''09:00''\<rparr>
      else \<lparr>t_interval = 30, t_unit = ''minutes'', t_at = None\<rparr>)"

definition demo_verdict :: "json \<Rightarrow> exn + trigger" where
  "demo_verdict p =
     (if p = perm_syntax then Inl (OtherError ''invalid syntax (<string>, line 1)'')
      else Inr (demo_trigger p))"

section \<open>Properties of \<open>validate_config\<close>\<close>


lemma bind_Inl [simp]: "bind (Inl e) f = Inl e"
  by (simp add: bind_def)

lemma bind_Inr [simp]: "bind (Inr v) f = f v"
  by (simp add: bind_def)

lemma for_each_ok: "for_each f xs = Inr () \<longleftrightarrow> (\<forall>x\<in>set xs. f x = Inr ())"
proof (induction xs)
  case Nil
  show ?case by simp
next
  case (Cons x xs)
  show ?case
  proof (cases "f x")
    case (Inl e)
    then show ?thesis by simp
  next
    case (Inr u)
    with Cons show ?thesis by simp
  qed
qed

lemma for_each_error: "for_each f xs = Inl e \<Longrightarrow> \<exists>x\<in>set xs. f x = Inl e"
proof (induction xs)
  case Nil
  then show ?case by simp
next
  case (Cons x xs)
  then show ?case by (cases "f x") auto
qed

lemma check_keys_dict:
  "check_keys msg ks (JDict m) =
     (case find (\<lambda>k. k \<notin> set (map fst m)) ks of
        None \<Rightarrow> Inr ()
      | Some k \<Rightarrow> Inl (ValueError (msg @ k)))"
  by (induction ks) auto

lemma check_keys_dict_ok:
  "check_keys msg ks (JDict m) = Inr () \<longleftrightarrow> list_all (\<lambda>k. k \<in> set (map fst m)) ks"
  by (induction ks) auto

lemma check_keys_dict_error:
  "check_keys msg ks (JDict m) = Inl e \<Longrightarrow> \<exists>k. e = ValueError (msg @ k)"
  by (induction ks) (auto split: if_splits)

lemma getitem_present:
  "k \<in> set (map fst m) \<Longrightarrow> \<exists>v. py_getitem (JDict m) k = Inr v"
proof -
  assume "k \<in> set (map fst m)"
  then have "map_of m k \<noteq> None"
    by (simp add: map_of_eq_None_iff)
  then show ?thesis by auto
qed

lemma starts_with_append [simp]: "starts_with p (p @ s)"
  by (induction p) auto

lemma validate_permission_ok: "validate_permission p = Inr () \<longleftrightarrow> is_permission p"
proof (cases p)
  case (JDict m)
  show ?thesis
  proof (cases "list_all (\<lambda>k. k \<in> set (map fst m)) required_permission_keys")
    case True
    then have ck: "check_keys ''Missing required key in permission: '' required_permission_keys (JDict m) = Inr ()"
      by (simp only: check_keys_dict_ok)
    from True obtain d s where
      d: "py_getitem (JDict m) ''permission_details'' = Inr d" and
      s: "py_getitem (JDict m) ''review_schedule'' = Inr s"
      using getitem_present [of "''permission_details''" m] getitem_present [of "''review_schedule''" m]
      by (auto simp: required_permission_keys_def)
    from True have hk: "has_keys [''description'', ''permission_details'', ''review_schedule''] (JDict m)"
      by (simp add: has_keys_def required_permission_keys_def)
    show ?thesis
      unfolding validate_permission_def is_permission_def item_def JDict
      by (simp only: ck d s hk bind_Inr is_dict.simps sum.case simp_thms if_False)
         (cases "is_dict d"; cases "is_str s"; simp)
  next
    case False
    then have "check_keys ''Missing required key in permission: '' required_permission_keys (JDict m) \<noteq> Inr ()"
      by (simp add: check_keys_dict_ok)
    then obtain e where ck: "check_keys ''Missing required key in permission: '' required_permission_keys (JDict m) = Inl e"
      by (cases "check_keys ''Missing required key in permission: '' required_permission_keys (JDict m)") auto
    from False have hk: "\<not> has_keys [''description'', ''permission_details'', ''review_schedule''] (JDict m)"
      by (simp add: has_keys_def required_permission_keys_def)
    show ?thesis
      unfolding validate_permission_def is_permission_def JDict
      by (simp only: ck hk bind_Inl is_dict.simps simp_thms if_False) simp
  qed
qed (simp_all add: validate_permission_def is_permission_def has_keys_def)


lemma rule_of_permission_messages:
  "rule_of_message ''Each permission entry in permissions_to_review must be a dictionary.'' = Some 2"
  "rule_of_message (''Missing required key in permission: '' @ k) = Some 2"
  "rule_of_message ''permission_details must be a dictionary'' = Some 2"
  "rule_of_message ''review_schedule must be a string'' = Some 2"
  "rule_of_message ''permissions_to_review must be a list of dictionaries.'' = Some 2"
  by (simp_all add: rule_of_message_def)

lemma rule_of_reviewer_messages:
  "rule_of_message ''Each reviewer entry in reviewers must be a dictionary.'' = Some 3"
  "rule_of_message (''Missing required key in reviewer: '' @ k) = Some 3"
  "rule_of_message ''Reviewer email must be a valid email address.'' = Some 3"
  "rule_of_message ''reviewers must be a list of dictionaries.'' = Some 3"
  by (simp_all add: rule_of_message_def)

lemma rule_of_other_messages:
  "rule_of_message (''Missing required configuration key: '' @ k) = Some 1"
  "rule_of_message ''smtp_server must be a string.'' = Some 4"
  "rule_of_message port_message = Some 5"
  "rule_of_message ''Sender email must be a valid email address.'' = Some 6"
  by (simp_all add: rule_of_message_def port_message_def)

lemma validate_permission_error:
  assumes "validate_permission p = Inl e"
  shows "rule_of_exn e = Some 2"
proof (cases "is_dict p")
  case False
  with assms show ?thesis
    by (auto simp: validate_permission_def rule_of_permission_messages)
next
  case True
  then obtain m where p: "p = JDict m" by (cases p) auto
  show ?thesis
  proof (cases "check_keys ''Missing required key in permission: '' required_permission_keys (JDict m)")
    case (Inl e')
    then obtain k where k: "e' = ValueError (''Missing required key in permission: '' @ k)"
      using check_keys_dict_error by blast
    from assms Inl have "e = e'"
      by (simp add: validate_permission_def p)
    with k show ?thesis
      by (simp only: rule_of_exn.simps rule_of_permission_messages)
  next
    case (Inr u)
    then have "list_all (\<lambda>k. k \<in> set (map fst m)) required_permission_keys"
      by (simp add: check_keys_dict_ok)
    then obtain d s where
      d: "py_getitem (JDict m) ''permission_details'' = Inr d" and
      s: "py_getitem (JDict m) ''review_schedule'' = Inr s"
      using getitem_present [of "''permission_details''" m] getitem_present [of "''review_schedule''" m]
      by (auto simp: required_permission_keys_def)
    from assms have "(if \<not> is_dict d then Inl (ValueError ''permission_details must be a dictionary'')
        else if \<not> is_str s then Inl (ValueError ''review_schedule must be a string'') else Inr ()) = Inl e"
      unfolding validate_permission_def p
      by (simp only: Inr d s bind_Inr is_dict.simps simp_thms if_False)
    then show ?thesis
      by (auto simp: rule_of_permission_messages split: if_splits)
  qed
qed

lemma is_email_iff: "is_email v \<longleftrightarrow> \<not> not_an_email v"
  by (cases v) (simp_all add: is_email_def)

lemma validate_reviewer_ok: "validate_reviewer r = Inr () \<longleftrightarrow> is_reviewer r"
proof (cases r)
  case (JDict m)
  show ?thesis
  proof (cases "list_all (\<lambda>k. k \<in> set (map fst m)) required_reviewer_keys")
    case True
    then have ck: "check_keys ''Missing required key in reviewer: '' required_reviewer_keys (JDict m) = Inr ()"
      by (simp only: check_keys_dict_ok)
    from True obtain em where em: "py_getitem (JDict m) ''email'' = Inr em"
      using getitem_present [of "''email''" m]
      by (auto simp: required_reviewer_keys_def)
    from True have hk: "has_keys [''name'', ''email''] (JDict m)"
      by (simp add: has_keys_def required_reviewer_keys_def)
    show ?thesis
      unfolding validate_reviewer_def is_reviewer_def item_def JDict
      by (simp only: ck em hk bind_Inr is_dict.simps sum.case simp_thms if_False is_email_iff)
         (cases "not_an_email em"; simp)
  next
    case False
    then have "check_keys ''Missing required key in reviewer: '' required_reviewer_keys (JDict m) \<noteq> Inr ()"
      by (simp add: check_keys_dict_ok)
    then obtain e where ck: "check_keys ''Missing required key in reviewer: '' required_reviewer_keys (JDict m) = Inl e"
      by (cases "check_keys ''Missing required key in reviewer: '' required_reviewer_keys (JDict m)") auto
    from False have hk: "\<not> has_keys [''name'', ''email''] (JDict m)"
      by (simp add: has_keys_def required_reviewer_keys_def)
    show ?thesis
      unfolding validate_reviewer_def is_reviewer_def JDict
      by (simp only: ck hk bind_Inl is_dict.simps simp_thms if_False) simp
  qed
qed (simp_all add: validate_reviewer_def is_reviewer_def has_keys_def)

lemma validate_reviewer_error:
  assumes "validate_reviewer r = Inl e"
  shows "rule_of_exn e = Some 3"
proof (cases "is_dict r")
  case False
  with assms show ?thesis
    by (auto simp: validate_reviewer_def rule_of_reviewer_messages)
next
  case True
  then obtain m where r: "r = JDict m" by (cases r) auto
  show ?thesis
  proof (cases "check_keys ''Missing required key in reviewer: '' required_reviewer_keys (JDict m)")
    case (Inl e')
    then obtain k where k: "e' = ValueError (''Missing required key in reviewer: '' @ k)"
      using check_keys_dict_error by blast
    from assms Inl have "e = e'"
      by (simp add: validate_reviewer_def r)
    with k show ?thesis
      by (simp only: rule_of_exn.simps rule_of_reviewer_messages)
  next
    case (Inr u)
    then have "list_all (\<lambda>k. k \<in> set (map fst m)) required_reviewer_keys"
      by (simp add: check_keys_dict_ok)
    then obtain em where em: "py_getitem (JDict m) ''email'' = Inr em"
      using getitem_present [of "''email''" m]
      by (auto simp: required_reviewer_keys_def)
    from assms have "(if not_an_email em then Inl (ValueError ''Reviewer email must be a valid email address.'')
        else Inr ()) = Inl e"
      unfolding validate_reviewer_def r
      by (simp only: Inr em bind_Inr is_dict.simps simp_thms if_False)
    then show ?thesis
      by (auto simp: rule_of_reviewer_messages split: if_splits)
  qed
qed

lemma check_port_ok:
  "check_port v = Inr () \<longleftrightarrow> (\<exists>n. py_int v = Inr n \<and> 0 < n \<and> n < 65535)"
  by (cases "py_int v") (auto simp: check_port_def split: exn.splits)

lemma check_port_error: "check_port v = Inl e \<Longrightarrow> rule_of_exn e = Some 5"
  by (cases v rule: py_int.cases)
     (auto simp: check_port_def rule_of_other_messages split: if_splits option.splits)

lemma check_port_value_error:
  "py_int v = Inl (ValueError m) \<Longrightarrow> check_port v = Inl (ValueError port_message)"
  by (simp add: check_port_def)

lemma check_port_range:
  "py_int v = Inr n \<Longrightarrow>
   check_port v = (if 0 < n \<and> n < 65535 then Inr () else Inl (ValueError port_message))"
  by (simp add: check_port_def)

lemma check_port_other_error:
  "py_int v = Inl e \<Longrightarrow> (\<forall>m. e \<noteq> ValueError m) \<Longrightarrow> check_port v = Inl e"
  by (cases e) (simp_all add: check_port_def)


lemma for_each_permissions_ok:
  "for_each validate_permission ps = Inr () \<longleftrightarrow> list_all is_permission ps"
  by (simp add: for_each_ok validate_permission_ok list_all_iff)

lemma for_each_reviewers_ok:
  "for_each validate_reviewer rs = Inr () \<longleftrightarrow> list_all is_reviewer rs"
  by (simp add: for_each_ok validate_reviewer_ok list_all_iff)

lemma rule_keys_dict:
  "rule_keys (JDict m) \<longleftrightarrow> list_all (\<lambda>k. k \<in> set (map fst m)) required_keys"
  by (simp add: rule_keys_def has_keys_def required_keys_def)

lemma item_getitem: "py_getitem v k = Inr x \<Longrightarrow> item v k = x"
  by (simp add: item_def)

lemma rule_keys_items:
  assumes "rule_keys (JDict m)"
  shows "py_getitem (JDict m) ''permissions_to_review'' = Inr (item (JDict m) ''permissions_to_review'')"
    and "py_getitem (JDict m) ''reviewers'' = Inr (item (JDict m) ''reviewers'')"
    and "py_getitem (JDict m) ''smtp_server'' = Inr (item (JDict m) ''smtp_server'')"
    and "py_getitem (JDict m) ''smtp_port'' = Inr (item (JDict m) ''smtp_port'')"
    and "py_getitem (JDict m) ''sender_email'' = Inr (item (JDict m) ''sender_email'')"
proof -
  have *: "k \<in> set (map fst m) \<Longrightarrow> py_getitem (JDict m) k = Inr (item (JDict m) k)" for k
    using getitem_present [of k m] by (auto simp: item_def)
  from assms have "list_all (\<lambda>k. k \<in> set (map fst m)) required_keys"
    by (simp only: rule_keys_dict)
  then have "\<forall>k\<in>set required_keys. k \<in> set (map fst m)"
    by (simp only: list_all_iff)
  with * have mem: "k \<in> set required_keys \<Longrightarrow> py_getitem (JDict m) k = Inr (item (JDict m) k)" for k
    by blast
  show
    "py_getitem (JDict m) ''permissions_to_review'' = Inr (item (JDict m) ''permissions_to_review'')"
    "py_getitem (JDict m) ''reviewers'' = Inr (item (JDict m) ''reviewers'')"
    "py_getitem (JDict m) ''smtp_server'' = Inr (item (JDict m) ''smtp_server'')"
    "py_getitem (JDict m) ''smtp_port'' = Inr (item (JDict m) ''smtp_port'')"
    "py_getitem (JDict m) ''sender_email'' = Inr (item (JDict m) ''sender_email'')"
    by (rule mem, simp add: required_keys_def)+
qed

lemma validate_config_dict:
  assumes "rule_keys (JDict m)"
  shows "validate_config (JDict m) =
    (case item (JDict m) ''permissions_to_review'' of
       JList ps \<Rightarrow>
         bind (for_each validate_permission ps)
           (\<lambda>_. case item (JDict m) ''reviewers'' of
                  JList rs \<Rightarrow> bind (for_each validate_reviewer rs) (\<lambda>_. validate_rest (JDict m))
                | _ \<Rightarrow> Inl (ValueError ''reviewers must be a list of dictionaries.''))
     | _ \<Rightarrow> Inl (ValueError ''permissions_to_review must be a list of dictionaries.''))"
proof -
  from assms have ck: "check_keys ''Missing required configuration key: '' required_keys (JDict m) = Inr ()"
    by (simp only: check_keys_dict_ok rule_keys_dict)
  show ?thesis
    unfolding validate_config_def validate_rest_def
    by (simp only: ck rule_keys_items [OF assms] bind_Inr)
qed

lemma validate_config_missing:
  assumes "find (\<lambda>k. k \<notin> set (map fst m)) required_keys = Some k"
  shows "validate_config (JDict m) = Inl (ValueError (''Missing required configuration key: '' @ k))"
proof -
  from assms have "check_keys ''Missing required configuration key: '' required_keys (JDict m)
      = Inl (ValueError (''Missing required configuration key: '' @ k))"
    by (simp only: check_keys_dict option.case)
  then show ?thesis
    by (simp only: validate_config_def bind_Inl)
qed

lemma not_rule_keys_find:
  assumes "\<not> rule_keys (JDict m)"
  shows "\<exists>k. find (\<lambda>k. k \<notin> set (map fst m)) required_keys = Some k"
proof -
  from assms have "\<not> (\<forall>k\<in>set required_keys. k \<in> set (map fst m))"
    by (simp add: rule_keys_dict list_all_iff)
  then have "find (\<lambda>k. k \<notin> set (map fst m)) required_keys \<noteq> None"
    by (auto simp: find_None_iff)
  then show ?thesis by auto
qed

lemma validate_rest_ok:
  "validate_rest c = Inr () \<longleftrightarrow> rule_server c \<and> rule_port c \<and> rule_sender c"
proof (cases "check_port (item c ''smtp_port'')")
  case (Inl e)
  then have "\<not> rule_port c"
    using check_port_ok [of "item c ''smtp_port''"]
    by (auto simp: rule_port_def split: sum.splits)
  with Inl show ?thesis
    by (simp add: validate_rest_def)
next
  case (Inr u)
  then have "rule_port c"
    using check_port_ok [of "item c ''smtp_port''"]
    by (auto simp: rule_port_def split: sum.splits)
  with Inr show ?thesis
    by (simp add: validate_rest_def rule_server_def rule_sender_def is_email_iff)
qed

lemma validate_rest_error:
  assumes "validate_rest c = Inl e"
  shows "rule_of_exn e = (if \<not> rule_server c then Some 4 else if \<not> rule_port c then Some 5 else Some 6)"
proof (cases "is_str (item c ''smtp_server'')")
  case False
  with assms show ?thesis
    by (auto simp: validate_rest_def rule_server_def rule_of_other_messages)
next
  case True
  show ?thesis
  proof (cases "check_port (item c ''smtp_port'')")
    case (Inl e')
    then have np: "\<not> rule_port c"
      using check_port_ok [of "item c ''smtp_port''"]
      by (auto simp: rule_port_def split: sum.splits)
    from assms True Inl have "e = e'"
      by (simp add: validate_rest_def)
    with Inl True np show ?thesis
      by (simp add: check_port_error rule_server_def)
  next
    case (Inr u)
    then have rp: "rule_port c"
      using check_port_ok [of "item c ''smtp_port''"]
      by (auto simp: rule_port_def split: sum.splits)
    from assms True Inr have "e = ValueError ''Sender email must be a valid email address.''"
      by (auto simp: validate_rest_def split: if_splits)
    with True rp show ?thesis
      by (simp add: rule_server_def rule_of_other_messages)
  qed
qed

lemma for_each_cases:
  obtains (ok) "for_each f xs = Inr ()" | (err) e where "for_each f xs = Inl e"
  by (cases "for_each f xs") auto

lemma validate_config_present:
  assumes keys: "rule_keys (JDict m)"
  shows "(validate_config (JDict m) = Inr () \<longleftrightarrow>
            rule_permissions (JDict m) \<and> rule_reviewers (JDict m) \<and> rule_server (JDict m) \<and>
            rule_port (JDict m) \<and> rule_sender (JDict m)) \<and>
         (validate_config (JDict m) = Inl e \<longrightarrow>
            rule_of_exn e =
              (if \<not> rule_permissions (JDict m) then Some 2
               else if \<not> rule_reviewers (JDict m) then Some 3
               else if \<not> rule_server (JDict m) then Some 4
               else if \<not> rule_port (JDict m) then Some 5 else Some 6))"
proof -
  let ?c = "JDict m"
  note vc = validate_config_dict [OF keys]
  show ?thesis
  proof (cases "is_list (item ?c ''permissions_to_review'')")
    case False
    then have np: "\<not> rule_permissions ?c"
      by (cases "item ?c ''permissions_to_review''") (simp_all add: rule_permissions_def)
    from False have "validate_config ?c =
        Inl (ValueError ''permissions_to_review must be a list of dictionaries.'')"
      by (cases "item ?c ''permissions_to_review''") (simp_all add: vc)
    with np show ?thesis
      by (auto simp: rule_of_permission_messages)
  next
    case True
    then obtain ps where ps: "item ?c ''permissions_to_review'' = JList ps"
      by (cases "item ?c ''permissions_to_review''") auto
    show ?thesis
    proof (cases "for_each validate_permission ps" rule: sum.exhaust [case_names Inl Inr])
      case (Inl e')
      then have np: "\<not> rule_permissions ?c"
        using for_each_permissions_ok [of ps] by (simp add: rule_permissions_def ps)
      from Inl have r: "rule_of_exn e' = Some 2"
        using for_each_error validate_permission_error by blast
      from Inl have "validate_config ?c = Inl e'"
        by (simp add: vc ps)
      with np r show ?thesis by auto
    next
      case (Inr u)
      then have rp: "rule_permissions ?c"
        using for_each_permissions_ok [of ps] by (simp add: rule_permissions_def ps)
      from Inr have vc2: "validate_config ?c =
        (case item ?c ''reviewers'' of
           JList rs \<Rightarrow> bind (for_each validate_reviewer rs) (\<lambda>_. validate_rest ?c)
         | _ \<Rightarrow> Inl (ValueError ''reviewers must be a list of dictionaries.''))"
        by (simp add: vc ps)
      show ?thesis
      proof (cases "is_list (item ?c ''reviewers'')")
        case False
        then have nr: "\<not> rule_reviewers ?c"
          by (cases "item ?c ''reviewers''") (simp_all add: rule_reviewers_def)
        from False have "validate_config ?c =
            Inl (ValueError ''reviewers must be a list of dictionaries.'')"
          by (cases "item ?c ''reviewers''") (simp_all add: vc2)
        with rp nr show ?thesis
          by (auto simp: rule_of_reviewer_messages)
      next
        case True
        then obtain rs where rs: "item ?c ''reviewers'' = JList rs"
          by (cases "item ?c ''reviewers''") auto
        show ?thesis
        proof (cases "for_each validate_reviewer rs" rule: sum.exhaust [case_names Inl Inr])
          case (Inl e')
          then have nr: "\<not> rule_reviewers ?c"
            using for_each_reviewers_ok [of rs] by (simp add: rule_reviewers_def rs)
          from Inl have r: "rule_of_exn e' = Some 3"
            using for_each_error validate_reviewer_error by blast
          from Inl have "validate_config ?c = Inl e'"
            by (simp add: vc2 rs)
          with rp nr r show ?thesis by auto
        next
          case (Inr u')
          then have rr: "rule_reviewers ?c"
            using for_each_reviewers_ok [of rs] by (simp add: rule_reviewers_def rs)
          from Inr have "validate_config ?c = validate_rest ?c"
            by (simp add: vc2 rs)
          with rp rr show ?thesis
            using validate_rest_ok [of ?c] validate_rest_error [of ?c e]
            by (auto split: if_splits)
        qed
      qed
    qed
  qed
qed

text \<open>
  For a parsed document that is a mapping: when a required top-level key is missing,
  \<open>validate_config\<close> raises the \<open>ValueError\<close> that names the first missing key, in
  the order of \<open>required_keys\<close>; it returns normally exactly when no rule of the spec is
  violated; and when it raises, the error it raises is the one of the first violated rule
  in the spec's order (keys, permissions, reviewers, server, port, sender).
\<close>

lemma validate_config_mapping:
  "(find (\<lambda>k. k \<notin> set (map fst m)) required_keys = Some k \<longrightarrow>
      validate_config (JDict m) = Inl (ValueError (''Missing required configuration key: '' @ k))) \<and>
   (validate_config (JDict m) = Inr () \<longleftrightarrow> first_violated (JDict m) = None) \<and>
   (validate_config (JDict m) = Inl e \<longrightarrow>
      first_violated (JDict m) = rule_of_exn e \<and> rule_of_exn e \<noteq> None)"
proof (cases "rule_keys (JDict m)")
  case True
  then have "find (\<lambda>k. k \<notin> set (map fst m)) required_keys = None"
    by (simp add: rule_keys_dict find_None_iff list_all_iff)
  with True show ?thesis
    using validate_config_present [OF True, of e]
    by (auto simp: first_violated_def)
next
  case False
  then obtain k' where k': "find (\<lambda>k. k \<notin> set (map fst m)) required_keys = Some k'"
    using not_rule_keys_find by blast
  then have "validate_config (JDict m) = Inl (ValueError (''Missing required configuration key: '' @ k'))"
    by (rule validate_config_missing)
  with False k' show ?thesis
    by (auto simp: first_violated_def rule_of_other_messages simp del: append.simps)
qed

text \<open>
  C7. The claim: for every parsed document that lacks a required top-level key,
  \<open>validate_config\<close> raises the \<open>ValueError\<close> that names the first missing key, the
  rules being checked in the spec's order. \<open>main\<close> passes whatever \<open>json.load\<close> returned.
  On the code the document \<open>null\<close> (like a number or a boolean) lacks every key, violates
  the first rule, and \<open>key not in config\<close> of line 78 raises \<open>TypeError\<close>; a list that
  holds the five key names as elements passes the loop of line 77, and
  \<open>config["permissions_to_review"]\<close> of line 81 raises \<open>TypeError\<close>. The entries of the
  document are tested with \<open>isinstance\<close> (lines 81, 85, 96, 100); the document itself
  is not.
\<close>

theorem validate_config_not_a_mapping:
  "first_violated JNull = Some 1 \<and>
   validate_config JNull = Inl (TypeError ''argument is not iterable'') \<and>
   first_violated (JInt 5) = Some 1 \<and>
   validate_config (JInt 5) = Inl (TypeError ''argument is not iterable'') \<and>
   first_violated (JList (map JStr required_keys)) = Some 1 \<and>
   validate_config (JList (map JStr required_keys)) =
     Inl (TypeError ''list indices must be integers or slices, not str'')"
  by code_simp

lemma validate_demo_config [simp]: "validate_config demo_config = Inr ()"
  by code_simp

text \<open>
  C4. The claim: every \<open>smtp_port\<close> that cannot be converted to an integer makes
  \<open>validate_config\<close> raise the schema error, a \<open>ValueError\<close>. On the code a port that
  is \<open>null\<close> (or a list, or a mapping) makes \<open>int()\<close> raise \<open>TypeError\<close>, and an
  infinite float makes it raise \<open>OverflowError\<close>; the handler of line 115 catches
  \<open>ValueError\<close> only, so these leave \<open>validate_config\<close> as they are.
\<close>

theorem validate_config_port_not_value_error:
  "validate_config (config_of [perm_db, perm_s3] [rev_ann, rev_bob] JNull) =
     Inl (TypeError ''int() argument must be a string, a bytes-like object or a real number'') \<and>
   validate_config (config_of [perm_db, perm_s3] [rev_ann, rev_bob] (JFloat (Infinity False))) =
     Inl (OverflowError ''cannot convert float infinity to integer'')"
  by code_simp

section \<open>Properties of the schedule setup\<close>

lemma is_permission_items:
  assumes "is_permission p"
  shows "py_getitem p ''description'' = Inr (item p ''description'')"
    and "py_getitem p ''permission_details'' = Inr (item p ''permission_details'')"
    and "py_getitem p ''review_schedule'' = Inr (JStr (schedule_string_of p))"
proof -
  from assms obtain m where p: "p = JDict m"
    by (cases p) (auto simp: is_permission_def has_keys_def)
  have *: "k \<in> set (map fst m) \<Longrightarrow> py_getitem (JDict m) k = Inr (item (JDict m) k)" for k
    using getitem_present [of k m] by (auto simp: item_def)
  from assms have keys: "''description'' \<in> set (map fst m)" "''permission_details'' \<in> set (map fst m)"
      "''review_schedule'' \<in> set (map fst m)"
    by (simp_all add: is_permission_def has_keys_def p)
  from assms have "is_str (item p ''review_schedule'')"
    by (simp add: is_permission_def)
  then have s: "item p ''review_schedule'' = JStr (schedule_string_of p)"
    by (cases "item p ''review_schedule''") (simp_all add: schedule_string_of_def)
  show "py_getitem p ''description'' = Inr (item p ''description'')"
    and "py_getitem p ''permission_details'' = Inr (item p ''permission_details'')"
    using keys * by (simp_all only: p)
  show "py_getitem p ''review_schedule'' = Inr (JStr (schedule_string_of p))"
    using keys(3) * [of "''review_schedule''"] s by (simp only: p)
qed

lemma is_reviewer_items:
  assumes "is_reviewer r"
  shows "py_getitem r ''name'' = Inr (item r ''name'')"
    and "py_getitem r ''email'' = Inr (item r ''email'')"
proof -
  from assms obtain m where r: "r = JDict m"
    by (cases r) (auto simp: is_reviewer_def has_keys_def)
  have *: "k \<in> set (map fst m) \<Longrightarrow> py_getitem (JDict m) k = Inr (item (JDict m) k)" for k
    using getitem_present [of k m] by (auto simp: item_def)
  from assms have keys: "''name'' \<in> set (map fst m)" "''email'' \<in> set (map fst m)"
    by (simp_all add: is_reviewer_def has_keys_def r)
  show "py_getitem r ''name'' = Inr (item r ''name'')"
    and "py_getitem r ''email'' = Inr (item r ''email'')"
    using keys * by (simp_all only: r)
qed

lemma render_str [simp]: "render E (JStr s) = s"
  by (simp add: render_def)

lemma schedule_text_valid:
  assumes "is_permission p" and "is_reviewer r"
  shows "schedule_text E p r (JStr (schedule_string_of p)) = Inr (pair_text E p r)"
  by (simp add: schedule_text_def pair_text_def is_permission_items(1) [OF assms(1)]
        is_reviewer_items(1) [OF assms(2)])

lemma schedule_pair_unfold:
  assumes "is_permission p" and "is_reviewer r"
  shows "schedule_pair E p r w =
    (case py_eval E (schedule_expr p) (emit (Eval (schedule_expr p)) w) of
       Returns js \<Rightarrow>
         (Inr (), emit (LogInfo (''Scheduled review for '' @ pair_text E p r))
                    ((emit (Eval (schedule_expr p)) w)\<lparr>jobs := js\<rparr>))
     | Raises e js \<Rightarrow>
         (Inr (), emit (LogError (''Failed to schedule review for '' @ pair_text E p r @ '': '' @
                                  exn_text e))
                    ((emit (Eval (schedule_expr p)) w)\<lparr>jobs := js\<rparr>))
     | Leaves code js \<Rightarrow> (Inl (SystemExit code), (emit (Eval (schedule_expr p)) w)\<lparr>jobs := js\<rparr>)
     | Beyond \<Rightarrow> (Inl Unmodelled, emit (Eval (schedule_expr p)) w))"
proof -
  have ex: "''schedule.'' @ render E (JStr (schedule_string_of p)) @ ''.do(job)'' = schedule_expr p"
    by (simp add: schedule_expr_def)
  note st = schedule_text_valid [OF assms]
  have sf: "schedule_failed E p r (JStr (schedule_string_of p)) e w' =
      (Inr (), emit (LogError (''Failed to schedule review for '' @ pair_text E p r @ '': '' @
                               exn_text e)) w')" for e w'
    unfolding schedule_failed_def by (simp only: st sum.case)
  show ?thesis
    unfolding schedule_pair_def
    by (simp only: is_permission_items(3) [OF assms(1)] sum.case ex Let_def st sf)
qed

lemma schedule_pair_valid:
  assumes "is_permission p" and "is_reviewer r" and "evaluates_as E (schedule_expr p) (v p)"
  shows "schedule_pair E p r w =
           (Inr (), w\<lparr>trace := trace w @ pair_events E v (p, r), jobs := jobs w @ pair_jobs v (p, r)\<rparr>)"
proof -
  from assms(3) have ev: "py_eval E (schedule_expr p) (emit (Eval (schedule_expr p)) w) =
      plain_outcome (v p) (jobs w)"
    by (simp add: evaluates_as_def emit_def)
  note sp = schedule_pair_unfold [OF assms(1) assms(2), of E w, unfolded ev]
  show ?thesis
  proof (cases "v p")
    case (Inl e)
    then show ?thesis
      by (simp add: sp plain_outcome_def pair_events_def pair_jobs_def emit_def)
  next
    case (Inr t)
    then show ?thesis
      by (simp add: sp plain_outcome_def pair_events_def pair_jobs_def emit_def)
  qed
qed

lemma reviewers_loop_valid:
  assumes "is_permission p" and "list_all is_reviewer rs"
    and "evaluates_as E (schedule_expr p) (v p)"
  shows "reviewers_loop E p rs w =
           (Inr (), w\<lparr>trace := trace w @ concat (map (\<lambda>r. pair_events E v (p, r)) rs),
                       jobs := jobs w @ concat (map (\<lambda>r. pair_jobs v (p, r)) rs),
                       frame := (frame w)\<lparr>f_reviewer :=
                          (if rs = [] then f_reviewer (frame w) else Some (last rs))\<rparr>\<rparr>)"
  using assms(2)
proof (induction rs arbitrary: w)
  case Nil
  show ?case by simp
next
  case (Cons r rs)
  then have r: "is_reviewer r" and rs: "list_all is_reviewer rs" by simp_all
  show ?case
    by (simp add: schedule_pair_valid [where v = v, OF assms(1) r assms(3)] Cons.IH [OF rs])
qed

lemma permissions_loop_valid:
  assumes revs: "py_getitem c ''reviewers'' = Inr (JList rs)"
    and "list_all is_permission ps" and rs: "list_all is_reviewer rs"
    and "\<forall>p\<in>set ps. evaluates_as E (schedule_expr p) (v p)"
  shows "permissions_loop E c ps w =
           (Inr (), w\<lparr>trace := trace w @ concat (map (pair_events E v) (List.product ps rs)),
                       jobs := jobs w @ concat (map (pair_jobs v) (List.product ps rs)),
                       frame := (frame w)\<lparr>
                          f_permission := (if ps = [] then f_permission (frame w) else Some (last ps)),
                          f_reviewer := (if ps = [] \<or> rs = [] then f_reviewer (frame w)
                                         else Some (last rs))\<rparr>\<rparr>)"
  using assms(2) assms(4)
proof (induction ps arbitrary: w)
  case Nil
  show ?case by simp
next
  case (Cons p ps)
  then have p: "is_permission p" and ps: "list_all is_permission ps"
    and ep: "evaluates_as E (schedule_expr p) (v p)"
    and eps: "\<forall>p\<in>set ps. evaluates_as E (schedule_expr p) (v p)"
    by simp_all
  have it: "bind (py_getitem c ''reviewers'') py_iter = Inr rs"
    by (simp add: revs)
  show ?case
    by (simp add: it reviewers_loop_valid [where v = v, OF p rs ep] Cons.IH [OF ps eps] o_def)
qed

lemma not_dict_invalid:
  assumes "\<not> is_dict c"
  shows "validate_config c \<noteq> Inr ()"
proof -
  have g: "py_getitem c ''permissions_to_review'' = Inl e \<Longrightarrow> validate_config c \<noteq> Inr ()" for e
    by (cases "check_keys ''Missing required configuration key: '' required_keys c")
       (simp_all add: validate_config_def)
  from assms obtain e where "py_getitem c ''permissions_to_review'' = Inl e"
    by (cases c) auto
  then show ?thesis by (rule g)
qed

lemma valid_config_rules:
  assumes "validate_config c = Inr ()"
  shows "rule_keys c" and "rule_permissions c" and "rule_reviewers c" and "rule_server c"
    and "rule_port c" and "rule_sender c"
proof -
  from assms obtain m where c: "c = JDict m"
    using not_dict_invalid [of c] by (cases c) auto
  have keys: "rule_keys c"
  proof (rule ccontr)
    assume "\<not> rule_keys c"
    then obtain k where "find (\<lambda>k. k \<notin> set (map fst m)) required_keys = Some k"
      using not_rule_keys_find [of m] by (auto simp: c)
    then have "validate_config c \<noteq> Inr ()"
      using validate_config_missing [of m k] by (simp add: c)
    with assms show False by simp
  qed
  then show "rule_keys c" .
  from keys assms show "rule_permissions c" and "rule_reviewers c" and "rule_server c"
    and "rule_port c" and "rule_sender c"
    using validate_config_present [of m] by (simp_all add: c)
qed

lemma valid_config_items:
  assumes "validate_config c = Inr ()"
  shows "py_getitem c ''permissions_to_review'' = Inr (JList (permissions_of c))"
    and "py_getitem c ''reviewers'' = Inr (JList (reviewers_of c))"
    and "list_all is_permission (permissions_of c)"
    and "list_all is_reviewer (reviewers_of c)"
    and "py_getitem c ''smtp_server'' = Inr (item c ''smtp_server'')"
    and "py_getitem c ''smtp_port'' = Inr (item c ''smtp_port'')"
    and "py_getitem c ''sender_email'' = Inr (item c ''sender_email'')"
proof -
  from assms obtain m where c: "c = JDict m"
    using not_dict_invalid [of c] by (cases c) auto
  note rules = valid_config_rules [OF assms]
  note items = rule_keys_items [OF rules(1) [unfolded c], folded c]
  from rules(2) obtain ps where ps: "item c ''permissions_to_review'' = JList ps"
    by (cases "item c ''permissions_to_review''") (simp_all add: rule_permissions_def)
  from rules(3) obtain rs where rs: "item c ''reviewers'' = JList rs"
    by (cases "item c ''reviewers''") (simp_all add: rule_reviewers_def)
  show "py_getitem c ''permissions_to_review'' = Inr (JList (permissions_of c))"
    by (simp add: items(1) ps permissions_of_def)
  show "py_getitem c ''reviewers'' = Inr (JList (reviewers_of c))"
    by (simp add: items(2) rs reviewers_of_def)
  show "list_all is_permission (permissions_of c)"
    using rules(2) by (simp add: rule_permissions_def permissions_of_def ps)
  show "list_all is_reviewer (reviewers_of c)"
    using rules(3) by (simp add: rule_reviewers_def reviewers_of_def rs)
  show "py_getitem c ''smtp_server'' = Inr (item c ''smtp_server'')"
    and "py_getitem c ''smtp_port'' = Inr (item c ''smtp_port'')"
    and "py_getitem c ''sender_email'' = Inr (item c ''sender_email'')"
    by (rule items)+
qed

lemma schedule_reviews_valid:
  assumes "validate_config c = Inr ()"
    and "\<forall>p\<in>set (permissions_of c). evaluates_as E (schedule_expr p) (v p)"
  shows "schedule_reviews E c w =
           (Inr (), \<lparr>trace = trace w @ concat (map (pair_events E v) (pairs_of c)),
                     jobs = jobs w @ concat (map (pair_jobs v) (pairs_of c)),
                     frame = \<lparr>f_config = c,
                       f_permission = (if permissions_of c = [] then None
                                       else Some (last (permissions_of c))),
                       f_reviewer = (if permissions_of c = [] \<or> reviewers_of c = [] then None
                                     else Some (last (reviewers_of c)))\<rparr>\<rparr>)"
proof -
  note it = valid_config_items [OF assms(1)]
  have "bind (py_getitem c ''permissions_to_review'') py_iter = Inr (permissions_of c)"
    by (simp add: it(1))
  then show ?thesis
    unfolding schedule_reviews_def pairs_of_def
    by (simp add: permissions_loop_valid [where v = v, OF it(2) it(3) it(4) assms(2)])
qed

lemma length_concat_pair_jobs:
  "length (concat (map (pair_jobs v) prs)) = length (filter (\<lambda>pr. succeeded (v (fst pr))) prs)"
proof (induction prs)
  case Nil
  show ?case by simp
next
  case (Cons pr prs)
  then show ?case
    by (cases "v (fst pr)") (simp_all add: pair_jobs_def)
qed

lemma closure_pair_jobs:
  "j \<in> set (concat (map (pair_jobs v) prs)) \<Longrightarrow> job_func j = Closure_job"
  by (auto simp: pair_jobs_def split: sum.splits)

lemma filter_eval_pair_events:
  "filter is_eval (concat (map (pair_events E v) prs)) = map (\<lambda>pr. Eval (schedule_expr (fst pr))) prs"
proof (induction prs)
  case Nil
  show ?case by simp
next
  case (Cons pr prs)
  then show ?case
    by (cases "v (fst pr)") (simp_all add: pair_events_def)
qed

lemma failed_pair_logged:
  assumes "pr \<in> set prs" and "v (fst pr) = Inl e"
  shows "LogError (''Failed to schedule review for '' @ pair_text E (fst pr) (snd pr) @ '': '' @
           exn_text e) \<in> set (concat (map (pair_events E v) prs))"
proof -
  from assms(2) have "LogError (''Failed to schedule review for '' @ pair_text E (fst pr) (snd pr) @
      '': '' @ exn_text e) \<in> set (pair_events E v pr)"
    by (simp add: pair_events_def)
  with assms(1) show ?thesis by auto
qed

lemma length_pairs_of: "length (pairs_of c) = length (permissions_of c) * length (reviewers_of c)"
  by (simp add: pairs_of_def)

lemma validate_bad_config [simp]: "validate_config bad_config = Inr ()"
  by code_simp

lemma validate_syntax_config [simp]: "validate_config syntax_config = Inr ()"
  by code_simp

lemma known_db:
  "py_eval E = known_eval \<Longrightarrow> evaluates_as E (schedule_expr perm_db) (Inr (demo_trigger perm_db))"
proof -
  assume E: "py_eval E = known_eval"
  have x: "schedule_expr perm_db =
      ''schedule.every().monday.at('' @ [CHR 0x27] @ ''09:00'' @ [CHR 0x27] @ '').do(job)''"
    by code_simp
  show ?thesis
    unfolding evaluates_as_def E x
    by (simp add: known_eval_def plain_outcome_def demo_trigger_def)
qed

lemma known_s3:
  "py_eval E = known_eval \<Longrightarrow> evaluates_as E (schedule_expr perm_s3) (Inr (demo_trigger perm_s3))"
proof -
  assume E: "py_eval E = known_eval"
  have x: "schedule_expr perm_s3 = ''schedule.every(30).minutes.do(job)''"
    by code_simp
  have d: "demo_trigger perm_s3 = \<lparr>t_interval = 30, t_unit = ''minutes'', t_at = None\<rparr>"
    by code_simp
  show ?thesis
    unfolding evaluates_as_def E x d
    by (simp add: known_eval_def plain_outcome_def)
qed

lemma known_syntax:
  "py_eval E = known_eval \<Longrightarrow>
   evaluates_as E (schedule_expr perm_syntax) (Inl (OtherError ''invalid syntax (<string>, line 1)''))"
proof -
  assume E: "py_eval E = known_eval"
  have x: "schedule_expr perm_syntax = ''schedule.every weekday.do(job)''"
    by code_simp
  show ?thesis
    unfolding evaluates_as_def E x
    by (simp add: known_eval_def plain_outcome_def)
qed

lemma demo_env_eval [simp]: "py_eval (demo_env c) = known_eval"
  by (simp add: demo_env_def)

lemma failing_env_eval [simp]: "py_eval (failing_env c) = known_eval"
  by (simp add: failing_env_def)

lemma concat_pair_jobs_registered:
  "concat (map (pair_jobs (\<lambda>p. Inr (t p))) prs) =
     map (\<lambda>pr. \<lparr>job_trigger = t (fst pr), job_func = Closure_job\<rparr>) prs"
  by (induction prs) (simp_all add: pair_jobs_def)

text \<open>
  C5. For every validated config in which the evaluation of every permission's
  \<open>review_schedule\<close> does what the library does with an expression that parses (it builds
  one job with a trigger, gives it the closure and appends it, and nothing else),
  \<open>schedule_reviews\<close> returns normally and appends exactly one job per
  (permission, reviewer) pair, with the trigger of the pair's permission, in the order of
  the two loops: the number of permissions times the number of reviewers.
\<close>

theorem schedule_reviews_registers_every_pair:
  assumes "validate_config config = Inr ()"
    and "\<forall>p\<in>set (permissions_of config). evaluates_as E (schedule_expr p) (Inr (t p))"
  shows "\<exists>w'. schedule_reviews E config w = (Inr (), w') \<and>
           jobs w' = jobs w @
             map (\<lambda>pr. \<lparr>job_trigger = t (fst pr), job_func = Closure_job\<rparr>) (pairs_of config) \<and>
           length (jobs w') =
             length (jobs w) + length (permissions_of config) * length (reviewers_of config)"
  by (simp add: schedule_reviews_valid [where v = "\<lambda>p. Inr (t p)", OF assms]
        concat_pair_jobs_registered length_pairs_of)

theorem schedule_reviews_registers_every_pair_witness:
  "validate_config demo_config = Inr () \<and>
   permissions_of demo_config = [perm_db, perm_s3] \<and>
   evaluates_as (demo_env demo_config) (schedule_expr perm_db) (Inr (demo_trigger perm_db)) \<and>
   evaluates_as (demo_env demo_config) (schedule_expr perm_s3) (Inr (demo_trigger perm_s3)) \<and>
   length (jobs (snd (schedule_reviews (demo_env demo_config) demo_config init_world))) = 4"
proof -
  have ps: "permissions_of demo_config = [perm_db, perm_s3]"
    by code_simp
  have rs: "length (reviewers_of demo_config) = 2"
    by code_simp
  have e1: "evaluates_as (demo_env demo_config) (schedule_expr perm_db) (Inr (demo_trigger perm_db))"
    by (rule known_db) simp
  have e2: "evaluates_as (demo_env demo_config) (schedule_expr perm_s3) (Inr (demo_trigger perm_s3))"
    by (rule known_s3) simp
  have h: "\<forall>p\<in>set (permissions_of demo_config).
      evaluates_as (demo_env demo_config) (schedule_expr p) (Inr (demo_trigger p))"
    by (simp add: ps e1 e2)
  have j: "jobs init_world = []"
    by (simp add: init_world_def)
  show ?thesis
    using schedule_reviews_registers_every_pair [OF validate_demo_config h, of init_world] e1 e2
    by (auto simp: ps rs j)
qed

text \<open>
  C6. The claim: for every config with a permission whose \<open>review_schedule\<close> fails to
  parse, the setup logs the failure, skips only that permission's pairs, registers every
  pair whose schedule parses, and does not abort. On the code the string is evaluated, not
  parsed. With \<open>every(exit())\<close> in the first permission the evaluation raises
  \<open>SystemExit\<close>: the setup is left at the first pair, nothing is logged, the pairs of the
  second permission, whose schedule is in the grammar, are never registered, and the
  process ends with status 0. With \<open>clear()\<close> in the second permission the setup returns,
  but the jobs registered for the first permission have been deleted.
\<close>

theorem schedule_reviews_aborted_by_evaluation:
  "validate_config exit_config = Inr () \<and>
   pairs_of exit_config =
     [(perm_exit, rev_ann), (perm_exit, rev_bob), (perm_s3, rev_ann), (perm_s3, rev_bob)] \<and>
   \<not> in_grammar (schedule_string_of perm_exit) \<and> in_grammar (schedule_string_of perm_s3) \<and>
   fst (schedule_reviews (demo_env exit_config) exit_config init_world) = Inl (SystemExit 0) \<and>
   jobs (snd (schedule_reviews (demo_env exit_config) exit_config init_world)) = [] \<and>
   trace (snd (schedule_reviews (demo_env exit_config) exit_config init_world)) =
     [Eval ''schedule.every(exit()).do(job)''] \<and>
   fst (main (demo_env exit_config) (demo_args False) 1) = Exited 0 \<and>
   validate_config cleared_config = Inr () \<and>
   pairs_of cleared_config =
     [(perm_s3, rev_ann), (perm_s3, rev_bob), (perm_bad, rev_ann), (perm_bad, rev_bob)] \<and>
   fst (schedule_reviews (demo_env cleared_config) cleared_config init_world) = Inr () \<and>
   jobs (snd (schedule_reviews (demo_env cleared_config) cleared_config init_world)) = []"
  by code_simp

text \<open>
  C6, amended. For every validated config in which the evaluation for every permission
  either registers the job and does nothing else, or raises an \<open>Exception\<close> and does
  nothing else: the setup returns normally; the jobs it appends are exactly those of the
  pairs whose evaluation registered, in loop order; and for every pair whose evaluation
  raised, nothing is registered and the error line naming the permission's description
  and the reviewer's name is in the log.
\<close>

theorem schedule_reviews_skips_failed_pairs:
  assumes "validate_config config = Inr ()"
    and "\<forall>p\<in>set (permissions_of config). evaluates_as E (schedule_expr p) (v p)"
  shows "\<exists>w'. schedule_reviews E config w = (Inr (), w') \<and>
           jobs w' = jobs w @ concat (map (pair_jobs v) (pairs_of config)) \<and>
           length (jobs w') = length (jobs w) +
             length (filter (\<lambda>pr. succeeded (v (fst pr))) (pairs_of config)) \<and>
           (\<forall>pr\<in>set (pairs_of config). \<forall>e. v (fst pr) = Inl e \<longrightarrow>
              pair_jobs v pr = [] \<and>
              LogError (''Failed to schedule review for '' @ pair_text E (fst pr) (snd pr) @ '': '' @
                        exn_text e) \<in> set (trace w')) \<and>
           (\<forall>pr\<in>set (pairs_of config). \<forall>t. v (fst pr) = Inr t \<longrightarrow>
              pair_jobs v pr = [\<lparr>job_trigger = t, job_func = Closure_job\<rparr>])"
proof -
  have skip: "pair_jobs v pr = []" if "v (fst pr) = Inl e" for pr e
    using that by (simp add: pair_jobs_def)
  have keep: "pair_jobs v pr = [\<lparr>job_trigger = t, job_func = Closure_job\<rparr>]"
    if "v (fst pr) = Inr t" for pr t
    using that by (simp add: pair_jobs_def)
  show ?thesis
    using failed_pair_logged [of _ "pairs_of config" v _ E] skip keep
    by (simp add: schedule_reviews_valid [where v = v, OF assms] length_concat_pair_jobs)
qed

theorem schedule_reviews_skips_failed_pairs_witness:
  "validate_config syntax_config = Inr () \<and>
   permissions_of syntax_config = [perm_syntax, perm_s3] \<and>
   evaluates_as (demo_env syntax_config) (schedule_expr perm_syntax) (demo_verdict perm_syntax) \<and>
   evaluates_as (demo_env syntax_config) (schedule_expr perm_s3) (demo_verdict perm_s3) \<and>
   demo_verdict perm_syntax = Inl (OtherError ''invalid syntax (<string>, line 1)'') \<and>
   (perm_syntax, rev_ann) \<in> set (pairs_of syntax_config) \<and>
   fst (schedule_reviews (demo_env syntax_config) syntax_config init_world) = Inr () \<and>
   length (jobs (snd (schedule_reviews (demo_env syntax_config) syntax_config init_world))) = 2 \<and>
   LogError (''Failed to schedule review for '' @ pair_text (demo_env syntax_config) perm_syntax rev_ann @
             '': '' @ ''invalid syntax (<string>, line 1)'')
     \<in> set (trace (snd (schedule_reviews (demo_env syntax_config) syntax_config init_world)))"
proof -
  let ?E = "demo_env syntax_config"
  have ps: "permissions_of syntax_config = [perm_syntax, perm_s3]"
    by code_simp
  have prs: "pairs_of syntax_config =
      [(perm_syntax, rev_ann), (perm_syntax, rev_bob), (perm_s3, rev_ann), (perm_s3, rev_bob)]"
    by code_simp
  have v1: "demo_verdict perm_syntax = Inl (OtherError ''invalid syntax (<string>, line 1)'')"
    by (simp add: demo_verdict_def)
  have v2: "demo_verdict perm_s3 = Inr (demo_trigger perm_s3)"
    by code_simp
  have e1: "evaluates_as ?E (schedule_expr perm_syntax) (demo_verdict perm_syntax)"
    unfolding v1 by (rule known_syntax) simp
  have e2: "evaluates_as ?E (schedule_expr perm_s3) (demo_verdict perm_s3)"
    unfolding v2 by (rule known_s3) simp
  have h: "\<forall>p\<in>set (permissions_of syntax_config). evaluates_as ?E (schedule_expr p) (demo_verdict p)"
    by (simp add: ps e1 e2)
  have j: "jobs init_world = []"
    by (simp add: init_world_def)
  from schedule_reviews_skips_failed_pairs [OF validate_syntax_config h, of init_world]
  obtain w' where sr: "schedule_reviews ?E syntax_config init_world = (Inr (), w')"
    and n: "length (jobs w') = length (jobs init_world) +
             length (filter (\<lambda>pr. succeeded (demo_verdict (fst pr))) (pairs_of syntax_config))"
    and lg: "\<forall>pr\<in>set (pairs_of syntax_config). \<forall>e. demo_verdict (fst pr) = Inl e \<longrightarrow>
              pair_jobs demo_verdict pr = [] \<and>
              LogError (''Failed to schedule review for '' @ pair_text ?E (fst pr) (snd pr) @ '': '' @
                        exn_text e) \<in> set (trace w')"
    by blast
  have m: "(perm_syntax, rev_ann) \<in> set (pairs_of syntax_config)"
    by (simp add: prs)
  from lg m v1 have l: "LogError (''Failed to schedule review for '' @ pair_text ?E perm_syntax rev_ann @
      '': '' @ ''invalid syntax (<string>, line 1)'') \<in> set (trace w')"
    by fastforce
  from n have n2: "length (jobs w') = 2"
    by (simp add: j prs v1 v2)
  show ?thesis
    by (intro conjI) (simp_all only: validate_syntax_config ps e1 [unfolded v1] e2 v1 m sr n2 l fst_conv snd_conv)
qed

lemma schedule_pair_first_event:
  assumes "is_permission p" and "is_reviewer r"
  shows "\<exists>evs. trace (snd (schedule_pair E p r w)) = trace w @ Eval (schedule_expr p) # evs"
  by (cases "py_eval E (schedule_expr p) (emit (Eval (schedule_expr p)) w)")
     (simp_all add: schedule_pair_unfold [OF assms] emit_def)

text \<open>
  C2. The claim: the setup parses and validates every \<open>review_schedule\<close> against the
  closed grammar, rejects a string outside the grammar without executing it, and never
  hands a string to a general-purpose evaluator. On the code, the string \<open>clear()\<close> of a
  validated config is outside the grammar and is handed to \<open>eval\<close> inside the text
  \<open>schedule.clear().do(job)\<close>.
\<close>

theorem schedule_reviews_evaluates_outside_grammar:
  "validate_config bad_config = Inr () \<and>
   schedule_string_of perm_bad = ''clear()'' \<and>
   \<not> in_grammar ''clear()'' \<and>
   Eval ''schedule.clear().do(job)''
     \<in> set (trace (snd (schedule_reviews (demo_env bad_config) bad_config init_world)))"
  by code_simp

text \<open>
  C2, amended. The setup makes no parse or grammar check. Whenever its loops reach a
  permission and a reviewer that pass validation, in any state and whatever the
  evaluation then does, the first thing the loop body does is to hand the text
  \<open>schedule.\<close> + the permission's \<open>review_schedule\<close> string + \<open>.do(job)\<close> to \<open>eval\<close>,
  whatever the string is. And for every validated config in which the evaluation for
  every permission either registers the job and does nothing else or raises an
  \<open>Exception\<close> and does nothing else, the texts handed to \<open>eval\<close> are exactly these
  texts, one for each (permission, reviewer) pair in loop order.
\<close>

theorem schedule_reviews_evaluates_raw_strings:
  "(is_permission p \<and> is_reviewer r \<longrightarrow>
      (\<exists>evs. trace (snd (schedule_pair E p r w)) =
                trace w @ Eval (''schedule.'' @ schedule_string_of p @ ''.do(job)'') # evs)) \<and>
   (validate_config config = Inr () \<and>
    (\<forall>q\<in>set (permissions_of config). evaluates_as E (schedule_expr q) (v q)) \<longrightarrow>
      filter is_eval (trace (snd (schedule_reviews E config w))) =
        filter is_eval (trace w) @
        map (\<lambda>pr. Eval (''schedule.'' @ schedule_string_of (fst pr) @ ''.do(job)''))
            (pairs_of config))"
proof (intro conjI impI)
  assume "is_permission p \<and> is_reviewer r"
  then show "\<exists>evs. trace (snd (schedule_pair E p r w)) =
      trace w @ Eval (''schedule.'' @ schedule_string_of p @ ''.do(job)'') # evs"
    using schedule_pair_first_event [of p r E w] by (simp only: schedule_expr_def)
next
  assume a: "validate_config config = Inr () \<and>
    (\<forall>q\<in>set (permissions_of config). evaluates_as E (schedule_expr q) (v q))"
  then have vc: "validate_config config = Inr ()"
    and ev: "\<forall>q\<in>set (permissions_of config). evaluates_as E (schedule_expr q) (v q)"
    by simp_all
  show "filter is_eval (trace (snd (schedule_reviews E config w))) =
        filter is_eval (trace w) @
        map (\<lambda>pr. Eval (''schedule.'' @ schedule_string_of (fst pr) @ ''.do(job)''))
            (pairs_of config)"
    by (simp only: schedule_reviews_valid [where v = v, OF vc ev] snd_conv world.simps
          filter_append filter_eval_pair_events schedule_expr_def)
qed

theorem schedule_reviews_evaluates_raw_strings_witness:
  "is_permission perm_bad \<and> is_reviewer rev_ann \<and>
   trace (snd (schedule_pair (demo_env syntax_config) perm_bad rev_ann init_world)) \<noteq> [] \<and>
   hd (trace (snd (schedule_pair (demo_env syntax_config) perm_bad rev_ann init_world))) =
     Eval ''schedule.clear().do(job)'' \<and>
   validate_config syntax_config = Inr () \<and>
   permissions_of syntax_config = [perm_syntax, perm_s3] \<and>
   evaluates_as (demo_env syntax_config) (schedule_expr perm_syntax) (demo_verdict perm_syntax) \<and>
   evaluates_as (demo_env syntax_config) (schedule_expr perm_s3) (demo_verdict perm_s3) \<and>
   filter is_eval (trace (snd (schedule_reviews (demo_env syntax_config) syntax_config init_world))) =
     [Eval ''schedule.every weekday.do(job)'', Eval ''schedule.every weekday.do(job)'',
      Eval ''schedule.every(30).minutes.do(job)'', Eval ''schedule.every(30).minutes.do(job)'']"
proof -
  let ?E = "demo_env syntax_config"
  have p: "is_permission perm_bad" and r: "is_reviewer rev_ann"
    by code_simp+
  have t: "trace init_world = []"
    by (simp add: init_world_def)
  have ps: "permissions_of syntax_config = [perm_syntax, perm_s3]"
    by code_simp
  have v1: "demo_verdict perm_syntax = Inl (OtherError ''invalid syntax (<string>, line 1)'')"
    by (simp add: demo_verdict_def)
  have v2: "demo_verdict perm_s3 = Inr (demo_trigger perm_s3)"
    by code_simp
  have e1: "evaluates_as ?E (schedule_expr perm_syntax) (demo_verdict perm_syntax)"
    unfolding v1 by (rule known_syntax) simp
  have e2: "evaluates_as ?E (schedule_expr perm_s3) (demo_verdict perm_s3)"
    unfolding v2 by (rule known_s3) simp
  have h: "\<forall>q\<in>set (permissions_of syntax_config). evaluates_as ?E (schedule_expr q) (demo_verdict q)"
    by (simp add: ps e1 e2)
  have s: "''schedule.'' @ schedule_string_of perm_bad @ ''.do(job)'' = ''schedule.clear().do(job)''"
    by code_simp
  have m: "map (\<lambda>pr. Eval (''schedule.'' @ schedule_string_of (fst pr) @ ''.do(job)'')) (pairs_of syntax_config) =
      [Eval ''schedule.every weekday.do(job)'', Eval ''schedule.every weekday.do(job)'',
       Eval ''schedule.every(30).minutes.do(job)'', Eval ''schedule.every(30).minutes.do(job)'']"
    by code_simp
  note th = schedule_reviews_evaluates_raw_strings
      [where p = perm_bad and r = rev_ann and E = ?E and w = init_world and config = syntax_config
         and v = demo_verdict]
  from th p r obtain evs where
    "trace (snd (schedule_pair (demo_env syntax_config) perm_bad rev_ann init_world)) =
       trace init_world @ Eval (''schedule.'' @ schedule_string_of perm_bad @ ''.do(job)'') # evs"
    by blast
  then have tr: "trace (snd (schedule_pair (demo_env syntax_config) perm_bad rev_ann init_world)) =
       Eval ''schedule.clear().do(job)'' # evs"
    by (simp only: t s append_Nil)
  from th validate_syntax_config h
  have "filter is_eval (trace (snd (schedule_reviews ?E syntax_config init_world))) =
     filter is_eval (trace init_world) @
     map (\<lambda>pr. Eval (''schedule.'' @ schedule_string_of (fst pr) @ ''.do(job)'')) (pairs_of syntax_config)"
    by blast
  then have ev: "filter is_eval (trace (snd (schedule_reviews ?E syntax_config init_world))) =
     [Eval ''schedule.every weekday.do(job)'', Eval ''schedule.every weekday.do(job)'',
      Eval ''schedule.every(30).minutes.do(job)'', Eval ''schedule.every(30).minutes.do(job)'']"
    by (simp only: t m filter.simps append_Nil)
  have ne: "trace (snd (schedule_pair (demo_env syntax_config) perm_bad rev_ann init_world)) \<noteq> []"
    and hd: "hd (trace (snd (schedule_pair (demo_env syntax_config) perm_bad rev_ann init_world))) =
     Eval ''schedule.clear().do(job)''"
    by (simp_all add: tr)
  show ?thesis
    by (intro conjI) (simp_all only: p r ne hd validate_syntax_config ps e1 e2 ev not_False_eq_True)
qed

section \<open>Properties of the jobs and of the run loop\<close>

lemma send_email_result:
  "\<exists>res logs. send_email E subject body recipient server port sender w =
       (res, w\<lparr>trace := trace w @ Deliver subject body recipient server port sender # logs\<rparr>) \<and>
     list_all is_log logs"
proof (cases "transport E (trace w @ [Deliver subject body recipient server port sender])")
  case None
  then show ?thesis
    by (auto simp: send_email_def emit_def Let_def
        intro!: exI [of _ "[LogInfo (''Email sent successfully to '' @ render E recipient)]"])
next
  case (Some e)
  show ?thesis
  proof (cases "\<exists>m. e = SMTPException m")
    case True
    then obtain m where "e = SMTPException m" by blast
    with Some show ?thesis
      by (auto simp: send_email_def emit_def Let_def
          intro!: exI [of _ "[LogError (''Error sending email to '' @ render E recipient @ '': '' @ m)]"])
  next
    case False
    with Some have "send_email E subject body recipient server port sender w =
        (Inl e, w\<lparr>trace := trace w @ [Deliver subject body recipient server port sender]\<rparr>)"
      by (cases e) (simp_all add: send_email_def emit_def Let_def)
    then show ?thesis
      by (auto intro!: exI [of _ "[]"])
  qed
qed

lemma create_review_task_valid:
  assumes p: "is_permission p" and r: "is_reviewer r"
  shows "\<exists>logs. create_review_task E p r server port sender w =
       (Inr (), w\<lparr>trace := trace w @
          [CallCreateReviewTask p r server port sender,
           Deliver (''Permission Review Required: '' @ render E (item p ''description''))
             (review_body (render E (item r ''name'')) (render E (item p ''description''))
                (render E (item p ''permission_details'')))
             (item r ''email'') server port sender] @ logs\<rparr>) \<and>
     list_all is_log logs"
proof -
  let ?w0 = "emit (CallCreateReviewTask p r server port sender) w"
  let ?subject = "''Permission Review Required: '' @ render E (item p ''description'')"
  let ?body = "review_body (render E (item r ''name'')) (render E (item p ''description''))
                (render E (item p ''permission_details''))"
  note pi = is_permission_items [OF p]
  note ri = is_reviewer_items [OF r]
  obtain res logs where
    se: "send_email E ?subject ?body (item r ''email'') server port sender ?w0 =
      (res, ?w0\<lparr>trace := trace ?w0 @ Deliver ?subject ?body (item r ''email'') server port sender # logs\<rparr>)"
    and logs: "list_all is_log logs"
    using send_email_result by blast
  have crt: "create_review_task E p r server port sender w =
    (case send_email E ?subject ?body (item r ''email'') server port sender ?w0 of
       (Inl e, w1) \<Rightarrow> send_failed E p r e w1
     | (Inr u, w1) \<Rightarrow> (Inr (), w1))"
    unfolding create_review_task_def
    by (simp only: pi ri sum.case Let_def)
  show ?thesis
  proof (cases res)
    case (Inr u)
    with se logs show ?thesis
      by (auto simp: crt emit_def intro!: exI [of _ logs])
  next
    case (Inl e)
    have sf: "send_failed E p r e w1 =
        (Inr (), emit (LogError (''Failed to send email for '' @ render E (item p ''description'') @
                   '' review to '' @ render E (item r ''email'') @ '': '' @ exn_text e)) w1)" for w1
      unfolding send_failed_def by (simp only: pi ri sum.case)
    from Inl se logs show ?thesis
      by (auto simp: crt sf emit_def
          intro!: exI [of _ "logs @ [LogError (''Failed to send email for '' @
             render E (item p ''description'') @ '' review to '' @ render E (item r ''email'') @
             '': '' @ exn_text e)]"])
  qed
qed

lemma job_valid:
  assumes "validate_config c = Inr ()" and p: "is_permission p" and r: "is_reviewer r"
    and f: "frame w = \<lparr>f_config = c, f_permission = Some p, f_reviewer = Some r\<rparr>"
  shows "\<exists>logs. job E w =
       (Inr (), w\<lparr>trace := trace w @ [job_call c p r, job_delivery E c p r] @ logs\<rparr>) \<and>
     list_all is_log logs"
proof -
  note it = valid_config_items [OF assms(1)]
  have "job E w = create_review_task E p r (item c ''smtp_server'') (item c ''smtp_port'')
      (item c ''sender_email'') w"
    unfolding job_def by (simp add: f it)
  then show ?thesis
    using create_review_task_valid [OF p r, of E "item c ''smtp_server''" "item c ''smtp_port''"
        "item c ''sender_email''" w]
    by (simp add: job_call_def job_delivery_def)
qed

lemma effects_append [simp]: "effects (xs @ ys) = effects xs @ effects ys"
  by (simp add: effects_def)

lemma effects_logs: "list_all is_log logs \<Longrightarrow> effects logs = []"
  by (induction logs) (simp_all add: effects_def)

lemma effects_Nil [simp]: "effects [] = []"
  by (simp add: effects_def)

lemma effects_call [simp]: "effects (job_call c p r # xs) = job_call c p r # effects xs"
  by (simp add: effects_def job_call_def)

lemma effects_delivery [simp]: "effects (job_delivery E c p r # xs) = job_delivery E c p r # effects xs"
  by (simp add: effects_def job_delivery_def)

lemma run_jobs_valid:
  assumes "validate_config c = Inr ()" and p: "is_permission p" and r: "is_reviewer r"
    and f: "frame w = \<lparr>f_config = c, f_permission = Some p, f_reviewer = Some r\<rparr>"
    and cl: "\<forall>j\<in>set js. job_func j = Closure_job"
  shows "\<exists>w'. run_jobs E js w = (Inr (), w') \<and> frame w' = frame w \<and> jobs w' = jobs w \<and>
     effects (trace w') =
       effects (trace w) @ concat (replicate (length js) [job_call c p r, job_delivery E c p r])"
  using f cl
proof (induction js arbitrary: w)
  case Nil
  show ?case by simp
next
  case (Cons j js)
  from Cons.prems have fw: "frame w = \<lparr>f_config = c, f_permission = Some p, f_reviewer = Some r\<rparr>"
    and cj: "job_func j = Closure_job" and cjs: "\<forall>j\<in>set js. job_func j = Closure_job"
    by simp_all
  obtain logs where jb: "job E w =
       (Inr (), w\<lparr>trace := trace w @ [job_call c p r, job_delivery E c p r] @ logs\<rparr>)"
    and logs: "list_all is_log logs"
    using job_valid [OF assms(1) p r fw] by blast
  let ?w1 = "w\<lparr>trace := trace w @ [job_call c p r, job_delivery E c p r] @ logs\<rparr>"
  have f1: "frame ?w1 = \<lparr>f_config = c, f_permission = Some p, f_reviewer = Some r\<rparr>"
    using fw by simp
  obtain w' where rj: "run_jobs E js ?w1 = (Inr (), w')" and fr: "frame w' = frame ?w1"
    and jw: "jobs w' = jobs ?w1"
    and ef: "effects (trace w') =
       effects (trace ?w1) @ concat (replicate (length js) [job_call c p r, job_delivery E c p r])"
    using Cons.IH [OF f1 cjs] by blast
  have "run_jobs E (j # js) w = (Inr (), w')"
    using rj by (simp add: cj jb)
  moreover have "effects (trace w') =
       effects (trace w) @ concat (replicate (length (j # js)) [job_call c p r, job_delivery E c p r])"
    using ef by (simp add: effects_logs [OF logs])
  ultimately show ?case
    using fr jw by simp
qed

lemma due_jobs_Nil [simp]: "due_jobs E tick [] = []"
  by (simp add: due_jobs_def)

lemma effects_sleep [simp]: "effects (Sleep n # xs) = Sleep n # effects xs"
  by (simp add: effects_def)





lemma setup_ready:
  assumes "validate_config c = Inr ()" and "jobs w = []"
    and "\<forall>p\<in>set (permissions_of c). evaluates_as E (schedule_expr p) (v p)"
  shows "jobs (snd (schedule_reviews E c w)) = [] \<or>
     (is_permission (last (permissions_of c)) \<and> is_reviewer (last (reviewers_of c)) \<and>
      frame (snd (schedule_reviews E c w)) =
        \<lparr>f_config = c, f_permission = Some (last (permissions_of c)),
          f_reviewer = Some (last (reviewers_of c))\<rparr>)"
proof (cases "permissions_of c = [] \<or> reviewers_of c = []")
  case True
  then have "length (pairs_of c) = 0"
    by (auto simp: length_pairs_of)
  then have "pairs_of c = []"
    by simp
  then show ?thesis
    by (simp add: schedule_reviews_valid [where v = v, OF assms(1) assms(3)] assms(2))
next
  case False
  note it = valid_config_items [OF assms(1)]
  from False it(3) have "is_permission (last (permissions_of c))"
    by (simp add: list_all_iff)
  moreover from False it(4) have "is_reviewer (last (reviewers_of c))"
    by (simp add: list_all_iff)
  ultimately show ?thesis
    using False by (simp add: schedule_reviews_valid [where v = v, OF assms(1) assms(3)])
qed

lemma setup_closures:
  assumes "validate_config c = Inr ()" and "jobs w = []"
    and "\<forall>p\<in>set (permissions_of c). evaluates_as E (schedule_expr p) (v p)"
  shows "\<forall>j\<in>set (jobs (snd (schedule_reviews E c w))). job_func j = Closure_job"
  using closure_pair_jobs [of _ v "pairs_of c"]
  by (simp add: schedule_reviews_valid [where v = v, OF assms(1) assms(3)] assms(2))

lemma filter_call_effects: "filter is_call (effects xs) = filter is_call xs"
  by (induction xs) (auto simp: effects_def elim: is_call.elims)



lemma filter_call_jobs:
  "filter is_call (concat (replicate k [job_call c p r, job_delivery E c p r])) =
     replicate k (job_call c p r)"
  by (induction k) (simp_all add: job_call_def job_delivery_def)







lemma validate_len_config [simp]: "validate_config len_config = Inr ()"
  by code_simp




lemma jobs_call_last_pair:
  assumes "validate_config config = Inr ()" and "jobs w0 = []"
    and "\<forall>p\<in>set (permissions_of config). evaluates_as E (schedule_expr p) (v p)"
    and "schedule_reviews E config w0 = (res, w)"
  shows "filter is_call (trace (snd (run_jobs E (jobs w) w))) =
           filter is_call (trace w) @
           replicate (length (jobs w))
             (job_call config (last (permissions_of config)) (last (reviewers_of config)))"
proof -
  let ?p = "last (permissions_of config)" and ?r = "last (reviewers_of config)"
  from assms(4) have w: "w = snd (schedule_reviews E config w0)" by simp
  have ready: "jobs w = [] \<or> (is_permission ?p \<and> is_reviewer ?r \<and>
      frame w = \<lparr>f_config = config, f_permission = Some ?p, f_reviewer = Some ?r\<rparr>)"
    unfolding w by (rule setup_ready [where v = v, OF assms(1) assms(2) assms(3)])
  have closures: "\<forall>j\<in>set (jobs w). job_func j = Closure_job"
    unfolding w by (rule setup_closures [where v = v, OF assms(1) assms(2) assms(3)])
  show ?thesis
  proof (cases "jobs w = []")
    case True
    then show ?thesis by simp
  next
    case False
    with ready have p: "is_permission ?p" and r: "is_reviewer ?r"
      and f: "frame w = \<lparr>f_config = config, f_permission = Some ?p, f_reviewer = Some ?r\<rparr>"
      by simp_all
    obtain w' where rj: "run_jobs E (jobs w) w = (Inr (), w')"
      and ef: "effects (trace w') = effects (trace w) @
         concat (replicate (length (jobs w)) [job_call config ?p ?r, job_delivery E config ?p ?r])"
      using run_jobs_valid [OF assms(1) p r f closures] by blast
    have "filter is_call (effects (trace w')) = filter is_call (effects (trace w)) @
        replicate (length (jobs w)) (job_call config ?p ?r)"
      by (simp only: ef filter_append filter_call_jobs)
    then show ?thesis
      by (simp only: rj snd_conv filter_call_effects)
  qed
qed

text \<open>
  C1. The claim: each registered job, when invoked, calls \<open>create_review_task\<close> with the
  permission and the reviewer it was registered for, so that two distinct permissions and
  two distinct reviewers give four distinct argument combinations. On the code the nested
  function \<open>job\<close> reads the loop variables \<open>permission\<close> and \<open>reviewer\<close> when it is
  called, after the loops have ended: with the two permissions and two reviewers of
  \<open>demo_config\<close> four jobs are registered, and running them gives four calls that all
  carry the last permission and the last reviewer.
\<close>

theorem jobs_all_use_last_pair:
  "perm_db \<noteq> perm_s3 \<and> rev_ann \<noteq> rev_bob \<and>
   validate_config demo_config = Inr () \<and>
   pairs_of demo_config =
     [(perm_db, rev_ann), (perm_db, rev_bob), (perm_s3, rev_ann), (perm_s3, rev_bob)] \<and>
   length (jobs (snd (schedule_reviews (demo_env demo_config) demo_config init_world))) = 4 \<and>
   filter is_call (trace (snd (run_jobs (demo_env demo_config)
       (jobs (snd (schedule_reviews (demo_env demo_config) demo_config init_world)))
       (snd (schedule_reviews (demo_env demo_config) demo_config init_world))))) =
     replicate 4 (CallCreateReviewTask perm_s3 rev_bob (JStr ''localhost'') (JInt 25)
                    (JStr ''permission_review@example.com''))"
  by code_simp

section \<open>Properties of \<open>main\<close>\<close>

lemma load_config_ok:
  "read_config E (config_path a) = Inr c \<Longrightarrow>
   load_config E (config_path a) init_world = (Inr c, loaded_world a)"
  by (simp add: load_config_def loaded_world_def)

lemma main_test_mode:
  assumes "read_config E (config_path a) = Inr c" and "validate_config c = Inr ()"
    and "test_email a"
  shows "main E a n =
    (case send_test_email E (item c ''smtp_server'') (item c ''smtp_port'') (item c ''sender_email'')
            (loaded_world a) of
       (Inl e, w2) \<Rightarrow> handle_exn a e w2
     | (Inr u, w2) \<Rightarrow> (Exited 0, w2))"
  unfolding main_def
  by (simp add: load_config_ok [OF assms(1)] assms(2) assms(3) valid_config_items [OF assms(2)])

lemma send_test_email_result:
  "\<exists>logs. send_test_email E (item c ''smtp_server'') (item c ''smtp_port'') (item c ''sender_email'') w =
       (Inr (), w\<lparr>trace := trace w @ test_delivery c # logs\<rparr>) \<and>
     list_all is_log logs \<and>
     (\<forall>e. transport E (trace w @ [test_delivery c]) = Some e \<longrightarrow>
        Print (''Failed to send test email: '' @ exn_text e) \<in> set logs \<and>
        LogError (''Failed to send test email: '' @ exn_text e) \<in> set logs)"
proof (cases "transport E (trace w @ [test_delivery c])")
  case None
  then show ?thesis
    by (auto simp: send_test_email_def send_email_def emit_def Let_def test_delivery_def
        intro!: exI [of _ "[LogInfo (''Email sent successfully to '' @ render E (item c ''sender_email'')),
                            Print ''Test email sent successfully. Check your inbox.'']"])
next
  case (Some e)
  show ?thesis
  proof (cases "\<exists>m. e = SMTPException m")
    case True
    then obtain m where "e = SMTPException m" by blast
    with Some show ?thesis
      by (auto simp: send_test_email_def send_email_def emit_def Let_def test_delivery_def
          intro!: exI [of _ "[LogError (''Error sending email to '' @ render E (item c ''sender_email'') @ '': '' @ m),
                              Print (''Failed to send test email: '' @ m),
                              LogError (''Failed to send test email: '' @ m)]"])
  next
    case False
    with Some have "send_email E ''Test Email from Permission Review Tool''
        ''This is a test email to verify that the email settings are configured correctly.''
        (item c ''sender_email'') (item c ''smtp_server'') (item c ''smtp_port'') (item c ''sender_email'') w =
        (Inl e, w\<lparr>trace := trace w @ [test_delivery c]\<rparr>)"
      by (cases e) (simp_all add: send_email_def emit_def Let_def test_delivery_def)
    with Some show ?thesis
      by (auto simp: send_test_email_def emit_def Let_def
          intro!: exI [of _ "[Print (''Failed to send test email: '' @ exn_text e),
                              LogError (''Failed to send test email: '' @ exn_text e)]"])
  qed
qed

lemma effects_test_delivery [simp]: "effects (test_delivery c # xs) = test_delivery c # effects xs"
  by (simp add: effects_def test_delivery_def)

lemma effects_loaded [simp]: "effects (trace (loaded_world a)) = []"
  by (simp add: effects_def loaded_world_def emit_def init_world_def)

text \<open>
  C8. For every validated config, every transport and every number of ticks granted to
  the loop, test-email mode ends with exit code 0 after handing exactly one message to
  the transport, addressed to \<open>sender_email\<close> itself; apart from log and console lines
  this delivery is the only thing that happened (no evaluation of a schedule, no call of a
  job, no sleep of the polling loop), and no job is registered.
\<close>

theorem test_mode_sends_one_message:
  assumes "read_config E (config_path a) = Inr config" and "validate_config config = Inr ()"
    and "test_email a"
  shows "\<exists>w. main E a n = (Exited 0, w) \<and>
           effects (trace w) =
             [Deliver ''Test Email from Permission Review Tool''
                ''This is a test email to verify that the email settings are configured correctly.''
                (item config ''sender_email'') (item config ''smtp_server'')
                (item config ''smtp_port'') (item config ''sender_email'')] \<and>
           jobs w = []"
proof -
  obtain logs where st: "send_test_email E (item config ''smtp_server'') (item config ''smtp_port'')
        (item config ''sender_email'') (loaded_world a) =
       (Inr (), (loaded_world a)\<lparr>trace := trace (loaded_world a) @ test_delivery config # logs\<rparr>)"
    and logs: "list_all is_log logs"
    using send_test_email_result by blast
  have ef: "effects (trace (loaded_world a) @ test_delivery config # logs) = [test_delivery config]"
    by (simp add: effects_logs [OF logs])
  have jb: "jobs (loaded_world a) = []"
    by (simp add: loaded_world_def emit_def init_world_def)
  show ?thesis
    using ef jb by (simp add: main_test_mode [OF assms] st test_delivery_def)
qed

theorem test_mode_sends_one_message_witness:
  "read_config (demo_env demo_config) (config_path (demo_args True)) = Inr demo_config \<and>
   validate_config demo_config = Inr () \<and> test_email (demo_args True) \<and>
   fst (main (demo_env demo_config) (demo_args True) 3) = Exited 0 \<and>
   effects (trace (snd (main (demo_env demo_config) (demo_args True) 3))) =
     [Deliver ''Test Email from Permission Review Tool''
        ''This is a test email to verify that the email settings are configured correctly.''
        (JStr ''permission_review@example.com'') (JStr ''localhost'') (JInt 25)
        (JStr ''permission_review@example.com'')] \<and>
   jobs (snd (main (demo_env demo_config) (demo_args True) 3)) = []"
proof -
  have r: "read_config (demo_env demo_config) (config_path (demo_args True)) = Inr demo_config"
    by (simp add: demo_env_def)
  have t: "test_email (demo_args True)"
    by (simp add: demo_args_def)
  have i: "item demo_config ''sender_email'' = JStr ''permission_review@example.com''"
    "item demo_config ''smtp_server'' = JStr ''localhost''"
    "item demo_config ''smtp_port'' = JInt 25"
    by code_simp+
  show ?thesis
    using test_mode_sends_one_message [OF r validate_demo_config t, of 3]
    by (auto simp: r t i)
qed

text \<open>
  C10. For every validated config in test-email mode: when the transport raises on the
  test delivery, whatever the exception, \<open>main\<close> still terminates normally with exit
  code 0, and the failure has been printed to the console and written to the log.
\<close>

theorem test_mode_exits_zero_on_failure:
  assumes "read_config E (config_path a) = Inr config" and "validate_config config = Inr ()"
    and "test_email a"
    and "transport E [LogInfo (''Configuration loaded from '' @ config_path a), test_delivery config]
           = Some e"
  shows "\<exists>w. main E a n = (Exited 0, w) \<and>
           Print (''Failed to send test email: '' @ exn_text e) \<in> set (trace w) \<and>
           LogError (''Failed to send test email: '' @ exn_text e) \<in> set (trace w)"
proof -
  have tr: "trace (loaded_world a) @ [test_delivery config] =
      [LogInfo (''Configuration loaded from '' @ config_path a), test_delivery config]"
    by (simp add: loaded_world_def emit_def init_world_def)
  obtain logs where st: "send_test_email E (item config ''smtp_server'') (item config ''smtp_port'')
        (item config ''sender_email'') (loaded_world a) =
       (Inr (), (loaded_world a)\<lparr>trace := trace (loaded_world a) @ test_delivery config # logs\<rparr>)"
    and fl: "\<forall>e. transport E (trace (loaded_world a) @ [test_delivery config]) = Some e \<longrightarrow>
        Print (''Failed to send test email: '' @ exn_text e) \<in> set logs \<and>
        LogError (''Failed to send test email: '' @ exn_text e) \<in> set logs"
    using send_test_email_result by blast
  from fl assms(4) have "Print (''Failed to send test email: '' @ exn_text e) \<in> set logs"
    and "LogError (''Failed to send test email: '' @ exn_text e) \<in> set logs"
    by (simp_all only: tr)
  then show ?thesis
    by (simp add: main_test_mode [OF assms(1) assms(2) assms(3)] st)
qed

theorem test_mode_exits_zero_on_failure_witness:
  "read_config (failing_env demo_config) (config_path (demo_args True)) = Inr demo_config \<and>
   validate_config demo_config = Inr () \<and> test_email (demo_args True) \<and>
   transport (failing_env demo_config)
     [LogInfo (''Configuration loaded from '' @ config_path (demo_args True)), test_delivery demo_config]
     = Some (SMTPException ''connection refused'') \<and>
   fst (main (failing_env demo_config) (demo_args True) 3) = Exited 0 \<and>
   Print ''Failed to send test email: connection refused''
     \<in> set (trace (snd (main (failing_env demo_config) (demo_args True) 3)))"
proof -
  have r: "read_config (failing_env demo_config) (config_path (demo_args True)) = Inr demo_config"
    by (simp add: failing_env_def)
  have t: "test_email (demo_args True)"
    by (simp add: demo_args_def)
  have f: "transport (failing_env demo_config)
     [LogInfo (''Configuration loaded from '' @ config_path (demo_args True)), test_delivery demo_config]
     = Some (SMTPException ''connection refused'')"
    by (simp add: failing_env_def)
  from test_mode_exits_zero_on_failure [OF r validate_demo_config t f, of 3]
  obtain w where m: "main (failing_env demo_config) (demo_args True) 3 = (Exited 0, w)"
    and p: "Print (''Failed to send test email: '' @ exn_text (SMTPException ''connection refused''))
              \<in> set (trace w)"
    by blast
  from p have p': "Print ''Failed to send test email: connection refused'' \<in> set (trace w)"
    by simp
  show ?thesis
    by (intro conjI) (simp_all only: r t f m p' validate_demo_config fst_conv snd_conv)
qed

lemma filter_deliver_evals [simp]:
  "filter is_deliver (map (\<lambda>pr. Eval (f pr)) prs) = []"
  by (induction prs) simp_all





end
